theory Spec2Isabelle
  imports Complex_Main
begin

section \<open>The TikTok uploader (src/ts/src/uploader.ts) as HOL functions\<close>

text \<open>
  The uploader drives a browser through Playwright. The model keeps the control flow of
  \<^verbatim>\<open>uploader.ts\<close> as it is written and makes its surroundings explicit:
  \<^item> every thrown error is a value of \<open>uploader_error\<close>, and a function that can throw
    returns \<open>uploader_error + 'a\<close> (\<open>Inl\<close> the error);
  \<^item> every call of the browser automation library, every callback invocation and every
    console line is an \<open>event\<close>; an asynchronous function returns the list of events it
    performed together with its result (\<open>'a run\<close>);
  \<^item> what the file system and the browser answer is a parameter, the \<open>world\<close>: for each
    call site whether it throws, and for each query what it returns. Every call site runs
    at most once in one upload (loops index their sites), so a \<open>world\<close> describes any
    behaviour of the surroundings during one upload.
\<close>

subsection \<open>Strings\<close>

text \<open>
  Strings are byte strings: a JavaScript string is kept in its UTF-8 encoding, so a
  character outside ASCII is the two, three or four bytes \<open>utf8\<close> gives for its code point
  (the no-break space U+00A0 is the bytes C2 A0). Equality, \<^verbatim>\<open>includes\<close> and concatenation
  of JavaScript strings are those of their encodings. \<open>toLowerCase\<close> maps the letters A to
  Z; the bytes of a character outside ASCII are left alone, which changes no comparison
  with the ASCII constants of the source.
\<close>

definition utf8 :: "nat \<Rightarrow> string" where
  "utf8 n =
     (if n < 0x80 then [char_of n]
      else if n < 0x800 then [char_of (0xC0 + n div 64), char_of (0x80 + n mod 64)]
      else if n < 0x10000 then
        [char_of (0xE0 + n div 4096), char_of (0x80 + n div 64 mod 64), char_of (0x80 + n mod 64)]
      else
        [char_of (0xF0 + n div 262144), char_of (0x80 + n div 4096 mod 64),
         char_of (0x80 + n div 64 mod 64), char_of (0x80 + n mod 64)])"

definition lower_char :: "char \<Rightarrow> char" where
  "lower_char c =
     (case map_of (zip ''ABCDEFGHIJKLMNOPQRSTUVWXYZ'' ''abcdefghijklmnopqrstuvwxyz'') c of
        None \<Rightarrow> c
      | Some d \<Rightarrow> d)"

definition toLowerCase :: "string \<Rightarrow> string" where
  "toLowerCase s = map lower_char s"

fun startsWith :: "string \<Rightarrow> string \<Rightarrow> bool" where
  "startsWith s [] = True"
| "startsWith [] (p # ps) = False"
| "startsWith (c # cs) (p # ps) = (c = p \<and> startsWith cs ps)"

text \<open>\<^verbatim>\<open>s.includes(sub)\<close>: \<open>sub\<close> occurs in \<open>s\<close> as a contiguous substring.\<close>

fun str_includes :: "string \<Rightarrow> string \<Rightarrow> bool" where
  "str_includes [] sub = (sub = [])"
| "str_includes (c # cs) sub = (startsWith (c # cs) sub \<or> str_includes cs sub)"

text \<open>
  The code points \<^verbatim>\<open>String.prototype.trim\<close> strips (ECMAScript, WhiteSpace and
  LineTerminator): tab, vertical tab, form feed, the byte order mark U+FEFF and the space
  separators of Unicode (space, no-break space U+00A0, U+1680, U+2000 to U+200A, U+202F,
  U+205F, U+3000), then line feed, carriage return, U+2028 and U+2029.
\<close>

definition white_space :: "nat list" where
  "white_space =
     [0x09, 0x0B, 0x0C, 0xFEFF,
      0x20, 0xA0, 0x1680,
      0x2000, 0x2001, 0x2002, 0x2003, 0x2004, 0x2005, 0x2006, 0x2007, 0x2008, 0x2009, 0x200A,
      0x202F, 0x205F, 0x3000,
      0x0A, 0x0D, 0x2028, 0x2029]"

text \<open>What follows the first of the prefixes \<open>ps\<close> the string starts with, if it starts with one.\<close>

fun after_prefix :: "string list \<Rightarrow> string \<Rightarrow> string option" where
  "after_prefix [] s = None"
| "after_prefix (p # ps) s =
     (if p \<noteq> [] \<and> startsWith s p then Some (drop (length p) s) else after_prefix ps s)"

text \<open>The string without the prefixes among \<open>ps\<close> it starts with, one after the other.\<close>

function strip :: "string list \<Rightarrow> string \<Rightarrow> string" where
  "strip ps s = (case after_prefix ps s of None \<Rightarrow> s | Some r \<Rightarrow> strip ps r)"
  by pat_completeness auto

termination
proof (relation "measure (\<lambda>(ps, s). length s)")
  show "wf (measure (\<lambda>(ps, s). length s))" by simp
next
  fix ps :: "string list" and s r :: string
  assume "after_prefix ps s = Some r"
  then have "length r < length s"
    by (induction ps) (auto split: if_splits elim: startsWith.elims)
  then show "((ps, r), (ps, s)) \<in> measure (\<lambda>(ps, s). length s)" by simp
qed

text \<open>
  \<^verbatim>\<open>s.trim()\<close>: the white space characters at the start are stripped, then those at the
  end. An encoded character starts at no byte inside another, so the bytes of a white
  space character at either end of an encoded string are that character.
\<close>

definition trim :: "string \<Rightarrow> string" where
  "trim s = rev (strip (map (rev \<circ> utf8) white_space) (rev (strip (map utf8 white_space) s)))"

text \<open>
  \<^verbatim>\<open>path.extname\<close> (POSIX): the last path component, trailing slashes dropped, from its
  last dot on; empty when the component has no dot, when nothing precedes its last dot,
  or when the component is \<^verbatim>\<open>..\<close>.
\<close>

definition extname :: "string \<Rightarrow> string" where
  "extname p =
     (let base_rev = takeWhile (\<lambda>c. c \<noteq> CHR ''/'') (dropWhile (\<lambda>c. c = CHR ''/'') (rev p));
          ext_rev = takeWhile (\<lambda>c. c \<noteq> CHR ''.'') base_rev;
          pre_rev = drop (Suc (length ext_rev)) base_rev
      in if CHR ''.'' \<notin> set base_rev then []
         else if pre_rev = [] then []
         else if base_rev = ''..'' then []
         else CHR ''.'' # rev ext_rev)"

text \<open>Decimal digits of a natural number, as template strings print an integer.\<close>

fun show_nat :: "nat \<Rightarrow> string" where
  "show_nat n =
     (if n < 10 then [''0123456789'' ! n]
      else show_nat (n div 10) @ [''0123456789'' ! (n mod 10)])"

text \<open>\<^verbatim>\<open>x.toFixed(1)\<close> for \<open>x \<ge> 0\<close>: the nearest multiple of a tenth, ties upwards.\<close>

definition toFixed1 :: "real \<Rightarrow> string" where
  "toFixed1 x =
     (let n = nat \<lfloor>x * 10 + 1 / 2\<rfloor>
      in show_nat (n div 10) @ ''.'' @ show_nat (n mod 10))"

subsection \<open>types.ts\<close>

datatype visibility = Everyone | Friends | Private

record upload_result =
  success :: bool
  videoId :: "string option"
  videoUrl :: "string option"
  status :: string
  error :: "string option"

record uploader_options =
  opt_session :: "string option"
  opt_headless :: "bool option"
  opt_timeout :: "int option"
  opt_debug :: "bool option"

text \<open>
  \<open>onProgress\<close> says whether a progress callback is supplied. The progress callback only
  observes: each invocation is an event of the run, and it returns normally.
\<close>

record upload_options =
  visibility :: "visibility option"
  onProgress :: bool

record video_info =
  video :: string
  description :: string
  vi_visibility :: "visibility option"

record cookie =
  name :: string
  "value" :: string
  domain :: string
  path :: string

definition SUPPORTED_FORMATS :: "string set" where
  "SUPPORTED_FORMATS = {''.mp4'', ''.mov'', ''.webm''}"

definition MAX_VIDEO_SIZE_MB :: real where
  "MAX_VIDEO_SIZE_MB = 287"

definition TIKTOK_UPLOAD_URL :: string where
  "TIKTOK_UPLOAD_URL = ''https://www.tiktok.com/creator-center/upload?lang=en''"

definition TIKTOK_BASE_URL :: string where
  "TIKTOK_BASE_URL = ''https://www.tiktok.com/''"

subsection \<open>errors.ts\<close>

text \<open>
  One constructor per error class, with the fields the class stores. \<open>PlatformError s\<close> is
  any other thrown value (what Playwright, Node or a callback throws), kept as its rendering
  \<^verbatim>\<open>String(error)\<close>. The uploader constructs \<open>SessionExpiredError\<close> and
  \<open>LoginRequiredError\<close> with their default messages only.
\<close>

datatype uploader_error =
    SessionExpiredError
  | LoginRequiredError
  | UploadFailedError string "string option"
  | VideoNotFoundError string
  | VideoTooLargeError real real
  | UnsupportedFormatError string
  | PlatformError string

text \<open>\<^verbatim>\<open>error.name\<close> and \<^verbatim>\<open>error.message\<close> as the constructors of errors.ts set them.\<close>

definition error_name :: "uploader_error \<Rightarrow> string" where
  "error_name e =
     (case e of
        SessionExpiredError \<Rightarrow> ''SessionExpiredError''
      | LoginRequiredError \<Rightarrow> ''LoginRequiredError''
      | UploadFailedError m sp \<Rightarrow> ''UploadFailedError''
      | VideoNotFoundError p \<Rightarrow> ''VideoNotFoundError''
      | VideoTooLargeError sz mx \<Rightarrow> ''VideoTooLargeError''
      | UnsupportedFormatError ext \<Rightarrow> ''UnsupportedFormatError''
      | PlatformError s \<Rightarrow> [])"

text \<open>
  \<^verbatim>\<open>${maxSizeMb}\<close> is printed for a natural number, the only kind the uploader passes
  (\<open>MAX_VIDEO_SIZE_MB\<close>).
\<close>

definition error_message :: "uploader_error \<Rightarrow> string" where
  \<open>error_message e =
     (case e of
        SessionExpiredError \<Rightarrow> ''Session has expired. Please login again with tiktok-upload auth''
      | LoginRequiredError \<Rightarrow>
          ''No TikTok session found. Run "tiktok-upload auth" or set TIKTOK_SESSION environment variable.''
      | UploadFailedError m sp \<Rightarrow> m
      | VideoNotFoundError p \<Rightarrow> ''Video file not found: '' @ p
      | VideoTooLargeError sz mx \<Rightarrow>
          ''Video too large: '' @ toFixed1 sz @ ''MB exceeds limit of '' @ show_nat (nat \<lfloor>mx\<rfloor>) @ ''MB''
      | UnsupportedFormatError ext \<Rightarrow>
          ''Unsupported video format: '' @ ext @ ''. Supported formats: .mp4, .mov, .webm''
      | PlatformError s \<Rightarrow> s)\<close>

text \<open>
  \<^verbatim>\<open>String(error)\<close>: for an \<^verbatim>\<open>Error\<close>, the name, a colon and the message (the name alone
  when the message is empty); for any other thrown value, its rendering.
\<close>

definition String_error :: "uploader_error \<Rightarrow> string" where
  "String_error e =
     (case e of
        PlatformError s \<Rightarrow> s
      | _ \<Rightarrow> (if error_message e = [] then error_name e
              else error_name e @ '': '' @ error_message e))"

subsection \<open>The platform: base64 decoding and JSON.parse\<close>

text \<open>
  A parsed JSON text. Numbers and strings are kept as the text of the literal (for a
  string, the text between its quotes with the escapes as written): the uploader looks
  only at whether the text parses and whether the value is an array.
\<close>

datatype json =
    JNull
  | JBool bool
  | JNumber string
  | JString string
  | JArray "json list"
  | JObject "(string \<times> json) list"

text \<open>
  The two platform functions \<open>parseSession\<close> calls:
  \<open>base64_utf8 s\<close> is \<^verbatim>\<open>Buffer.from(s, 'base64').toString('utf-8')\<close>, which never throws,
  and \<open>JSON_parse t\<close> is \<^verbatim>\<open>JSON.parse(t)\<close>, \<open>None\<close> when it throws a SyntaxError.
\<close>

record platform =
  base64_utf8 :: "string \<Rightarrow> string"
  JSON_parse :: "string \<Rightarrow> json option"

text \<open>
  Node's decoder: characters outside the base64 alphabets (standard and URL-safe) are
  skipped, the first \<^verbatim>\<open>=\<close> ends the input, four sextets give three bytes, and two or
  three left over give one or two.
\<close>

definition b64_value :: "char \<Rightarrow> nat option" where
  "b64_value c =
     (if c = CHR ''-'' then Some 62
      else if c = CHR ''_'' then Some 63
      else map_of (zip ''ABCDEFGHIJKLMNOPQRSTUVWXYZabcdefghijklmnopqrstuvwxyz0123456789+/'' [0 ..< 64]) c)"

fun b64_bytes :: "nat list \<Rightarrow> string" where
  "b64_bytes (a # b # c # d # rest) =
     char_of (a * 4 + b div 16) # char_of ((b mod 16) * 16 + c div 4)
       # char_of ((c mod 4) * 64 + d) # b64_bytes rest"
| "b64_bytes [a, b, c] = [char_of (a * 4 + b div 16), char_of ((b mod 16) * 16 + c div 4)]"
| "b64_bytes [a, b] = [char_of (a * 4 + b div 16)]"
| "b64_bytes [a] = []"
| "b64_bytes [] = []"

definition node_base64_utf8 :: "string \<Rightarrow> string" where
  "node_base64_utf8 s =
     b64_bytes (List.map_filter b64_value (takeWhile (\<lambda>c. c \<noteq> CHR ''='') s))"

text \<open>
  JSON.parse, by recursive descent. Every call for a value, an element list or a member
  list takes one unit of \<open>fuel\<close> and reads at least one character; \<open>node_JSON_parse\<close>
  starts with twice as much fuel as the text has characters.
\<close>

definition skip_ws :: "string \<Rightarrow> string" where
  "skip_ws cs = dropWhile (\<lambda>c. c \<in> set [CHR '' '', CHR 0x09, CHR 0x0A, CHR 0x0D]) cs"

definition is_digit :: "char \<Rightarrow> bool" where
  "is_digit c = (c \<in> set ''0123456789'')"

definition is_hex :: "char \<Rightarrow> bool" where
  "is_hex c = (c \<in> set ''0123456789abcdefABCDEF'')"

text \<open>The rest of a string literal after its opening quote: its text and what follows it.\<close>

fun json_string_rest :: "string \<Rightarrow> (string \<times> string) option" where
  "json_string_rest [] = None"
| "json_string_rest (c # cs) =
     (if c = CHR 0x22 then Some ([], cs)
      else if c = CHR 0x5C then
        (case cs of
           [] \<Rightarrow> None
         | e # cs' \<Rightarrow>
             if e \<in> set [CHR 0x22, CHR 0x5C, CHR ''/'', CHR ''b'', CHR ''f'', CHR ''n'', CHR ''r'', CHR ''t'']
             then map_option (\<lambda>(t, r). (c # e # t, r)) (json_string_rest cs')
             else if e = CHR ''u'' \<and> 4 \<le> length cs' \<and> list_all is_hex (take 4 cs')
             then map_option (\<lambda>(t, r). (c # e # take 4 cs' @ t, r)) (json_string_rest (drop 4 cs'))
             else None)
      else if (of_char c :: nat) < 32 then None
      else map_option (\<lambda>(t, r). (c # t, r)) (json_string_rest cs))"

text \<open>A number literal at the head of the text: sign, integer part, fraction, exponent.\<close>

definition json_number :: "string \<Rightarrow> (string \<times> string) option" where
  "json_number cs =
     (let (sgn, r0) = (if cs \<noteq> [] \<and> hd cs = CHR ''-'' then (''-'', tl cs) else ([], cs));
          ds = takeWhile is_digit r0;
          r1 = dropWhile is_digit r0;
          (frac, r2) =
            (if r1 \<noteq> [] \<and> hd r1 = CHR ''.'' \<and> takeWhile is_digit (tl r1) \<noteq> []
             then (CHR ''.'' # takeWhile is_digit (tl r1), dropWhile is_digit (tl r1))
             else ([], r1));
          e0 = (if r2 \<noteq> [] \<and> (hd r2 = CHR ''e'' \<or> hd r2 = CHR ''E'') then tl r2 else []);
          esgn = (if e0 \<noteq> [] \<and> (hd e0 = CHR ''+'' \<or> hd e0 = CHR ''-'') then [hd e0] else []);
          e1 = drop (length esgn) e0;
          (ex, r3) =
            (if takeWhile is_digit e1 \<noteq> []
             then (hd r2 # esgn @ takeWhile is_digit e1, dropWhile is_digit e1)
             else ([], r2))
      in if ds = [] \<or> (1 < length ds \<and> hd ds = CHR ''0'') then None
         else Some (sgn @ ds @ frac @ ex, r3))"

fun json_value :: "nat \<Rightarrow> string \<Rightarrow> (json \<times> string) option"
  and json_elements :: "nat \<Rightarrow> string \<Rightarrow> (json list \<times> string) option"
  and json_members :: "nat \<Rightarrow> string \<Rightarrow> ((string \<times> json) list \<times> string) option"
where
  "json_value 0 cs = None"
| "json_value (Suc fuel) cs =
     (let t = skip_ws cs in
      if startsWith t ''null'' then Some (JNull, drop 4 t)
      else if startsWith t ''true'' then Some (JBool True, drop 4 t)
      else if startsWith t ''false'' then Some (JBool False, drop 5 t)
      else if startsWith t [CHR 0x22] then
        map_option (\<lambda>(s, r). (JString s, r)) (json_string_rest (tl t))
      else if startsWith t ''['' then
        (if startsWith (skip_ws (tl t)) '']'' then Some (JArray [], tl (skip_ws (tl t)))
         else map_option (\<lambda>(js, r). (JArray js, r)) (json_elements fuel (tl t)))
      else if startsWith t ''{'' then
        (if startsWith (skip_ws (tl t)) ''}'' then Some (JObject [], tl (skip_ws (tl t)))
         else map_option (\<lambda>(ms, r). (JObject ms, r)) (json_members fuel (tl t)))
      else map_option (\<lambda>(n, r). (JNumber n, r)) (json_number t))"
| "json_elements 0 cs = None"
| "json_elements (Suc fuel) cs =
     (case json_value fuel cs of
        None \<Rightarrow> None
      | Some (j, r) \<Rightarrow>
          (let t = skip_ws r in
           if startsWith t '']'' then Some ([j], tl t)
           else if startsWith t '','' then
             map_option (\<lambda>(js, r'). (j # js, r')) (json_elements fuel (tl t))
           else None))"
| "json_members 0 cs = None"
| "json_members (Suc fuel) cs =
     (let k = skip_ws cs in
      if startsWith k [CHR 0x22] then
        (case json_string_rest (tl k) of
           None \<Rightarrow> None
         | Some (key, r0) \<Rightarrow>
             if startsWith (skip_ws r0) '':'' then
               (case json_value fuel (tl (skip_ws r0)) of
                  None \<Rightarrow> None
                | Some (j, r) \<Rightarrow>
                    (let t = skip_ws r in
                     if startsWith t ''}'' then Some ([(key, j)], tl t)
                     else if startsWith t '','' then
                       map_option (\<lambda>(ms, r'). ((key, j) # ms, r')) (json_members fuel (tl t))
                     else None))
             else None)
      else None)"

definition node_JSON_parse :: "string \<Rightarrow> json option" where
  "node_JSON_parse s =
     (case json_value (2 * length s + 2) s of
        None \<Rightarrow> None
      | Some (j, r) \<Rightarrow> if skip_ws r = [] then Some j else None)"

definition node :: platform where
  "node = \<lparr>base64_utf8 = node_base64_utf8, JSON_parse = node_JSON_parse\<rparr>"

subsection \<open>Events, the world and runs\<close>

text \<open>
  The call sites of the browser automation library in uploader.ts, each with the
  arguments the source passes. A site inside a loop carries the loop's index or label.
\<close>

datatype call =
    ChromiumLaunch bool
  | BrowserNewContext nat nat
  | SetupNewPage
  | SetupGoto string
  | SetupWait nat
  | ContextAddCookies "json list"
  | SetupPageClose
  | ContextNewPage
  | PageGoto string
  | NavigationWait nat
  | SetInputFiles string
  | ProcessingWait nat
  | ModalIsVisible string nat
  | ModalClick string
  | ModalWait string nat
  | DescriptionClick
  | DescriptionFill string
  | KeyboardPress string
  | DescriptionWait nat
  | EvaluateScrollToBottom
  | ScrollWait nat
  | LocatorAll
  | TextContent nat
  | BoundingBox nat
  | Screenshot string
  | ScrollIntoViewIfNeeded nat
  | ClickWait nat
  | PostClick nat
  | PollWait nat nat
  | ExitModalIsVisible nat nat
  | BrowserClose

datatype event =
    Call call
  | Progress int
  | ConsoleLog string
  | ConsoleError string
  | VideoComplete nat upload_result

record bounding_box =
  width :: real
  height :: real

text \<open>
  A candidate button as the page answers for it: \<^verbatim>\<open>textContent()\<close> (\<open>None\<close> is null) and
  \<^verbatim>\<open>boundingBox()\<close> (\<open>None\<close> is null, an element that is not rendered).
\<close>

record button =
  textContent :: "string option"
  boundingBox :: "bounding_box option"

text \<open>
  The surroundings of one upload.
  \<^item> \<open>resolve\<close> is \<^verbatim>\<open>path.resolve\<close> in the current working directory; \<open>stat_size p\<close> is
    \<open>None\<close> when \<^verbatim>\<open>fs.existsSync(p)\<close> is false and otherwise \<^verbatim>\<open>fs.statSync(p).size\<close>
    (whatever exists at \<open>p\<close> counts).
  \<^item> \<open>throws c\<close> is \<open>Some s\<close> when the call \<open>c\<close> rejects, \<open>s\<close> being \<^verbatim>\<open>String\<close> of the thrown
    value, and \<open>None\<close> when it resolves.
  \<^item> \<open>page_url\<close> is \<^verbatim>\<open>page.url()\<close> after the navigation to the upload page;
    \<open>modal_visible b\<close> is what \<^verbatim>\<open>isVisible\<close> resolves to for the label \<open>b\<close>;
    \<open>post_buttons\<close> are the buttons the locator for \<^verbatim>\<open>Post\<close> finds; \<open>poll_url i\<close> and
    \<open>exit_modal_visible i\<close> are \<^verbatim>\<open>page.url()\<close> and the visibility of the exit dialog at
    the polling tick \<open>i\<close>.
\<close>

record world =
  resolve :: "string \<Rightarrow> string"
  stat_size :: "string \<Rightarrow> nat option"
  throws :: "call \<Rightarrow> string option"
  page_url :: string
  modal_visible :: "string \<Rightarrow> bool"
  post_buttons :: "button list"
  poll_url :: "nat \<Rightarrow> string"
  exit_modal_visible :: "nat \<Rightarrow> bool"

text \<open>A run: the events performed, in order, and the value returned or the error thrown.\<close>

type_synonym 'a run = "event list \<times> (uploader_error + 'a)"

definition ret :: "'a \<Rightarrow> 'a run" where
  "ret v = ([], Inr v)"

definition throw :: "uploader_error \<Rightarrow> 'a run" where
  "throw e = ([], Inl e)"

definition emit :: "event \<Rightarrow> unit run" where
  "emit ev = ([ev], Inr ())"

text \<open>Sequencing: the second part runs only when the first returns.\<close>

definition andThen :: "'a run \<Rightarrow> ('a \<Rightarrow> 'b run) \<Rightarrow> 'b run" where
  "andThen m f =
     (case m of
        (es, Inl e) \<Rightarrow> (es, Inl e)
      | (es, Inr v) \<Rightarrow> (case f v of (es', r) \<Rightarrow> (es @ es', r)))"

text \<open>\<^verbatim>\<open>try { m } catch (error) { h(error) }\<close>\<close>

definition try_catch :: "'a run \<Rightarrow> (uploader_error \<Rightarrow> 'a run) \<Rightarrow> 'a run" where
  "try_catch m h =
     (case m of
        (es, Inl e) \<Rightarrow> (case h e of (es', r) \<Rightarrow> (es @ es', r))
      | (es, Inr v) \<Rightarrow> (es, Inr v))"

text \<open>
  \<^verbatim>\<open>try { m } finally { fin }\<close>: \<open>fin\<close> runs however \<open>m\<close> ends; when \<open>fin\<close> throws, its error
  replaces the outcome of \<open>m\<close>.
\<close>

definition try_finally :: "'a run \<Rightarrow> unit run \<Rightarrow> 'a run" where
  "try_finally m fin =
     (case m of
        (es, r) \<Rightarrow>
          (case fin of
             (es', Inl e) \<Rightarrow> (es @ es', Inl e)
           | (es', Inr u) \<Rightarrow> (es @ es', r)))"

text \<open>An awaited call of the automation library: performed, then it resolves or rejects.\<close>

definition await :: "world \<Rightarrow> call \<Rightarrow> unit run" where
  "await w c =
     (case throws w c of
        None \<Rightarrow> ([Call c], Inr ())
      | Some s \<Rightarrow> ([Call c], Inl (PlatformError s)))"

definition await_value :: "world \<Rightarrow> call \<Rightarrow> 'a \<Rightarrow> 'a run" where
  "await_value w c v = andThen (await w c) (\<lambda>u. ret v)"

text \<open>\<^verbatim>\<open>if (onProgress) { onProgress(n); }\<close>\<close>

definition report :: "bool \<Rightarrow> int \<Rightarrow> unit run" where
  "report cb n = (if cb then emit (Progress n) else ret ())"

subsection \<open>class TikTokUploader\<close>

text \<open>The fields of the class. The timeout is a whole number of milliseconds.\<close>

record uploader =
  session :: "string option"
  headless :: bool
  timeout :: int
  debug :: bool
  cookies :: "json list option"

text \<open>\<^verbatim>\<open>if (this.debug) { console.log(s); }\<close>\<close>

definition debug_log :: "uploader \<Rightarrow> string \<Rightarrow> unit run" where
  "debug_log u s = (if debug u then emit (ConsoleLog s) else ret ())"

definition cookie_json :: "cookie \<Rightarrow> json" where
  "cookie_json c =
     JObject [(''name'', JString (name c)), (''value'', JString (value c)),
              (''domain'', JString (domain c)), (''path'', JString (path c))]"

text \<open>The two cookies \<open>parseSession\<close> builds from a raw session id.\<close>

definition raw_session_cookies :: "string \<Rightarrow> json list" where
  "raw_session_cookies s =
     [cookie_json \<lparr>name = ''sessionid'', value = s, domain = ''.tiktok.com'', path = ''/''\<rparr>,
      cookie_json \<lparr>name = ''sessionid_ss'', value = s, domain = ''.tiktok.com'', path = ''/''\<rparr>]"

text \<open>
  \<open>parseSession\<close> (lines 60 to 77) returns what \<^verbatim>\<open>JSON.parse\<close> gave whenever that is an
  array: the elements are not inspected, so the result is a list of JSON values. A
  SyntaxError of \<^verbatim>\<open>JSON.parse\<close> is caught.
\<close>

definition parseSession :: "platform \<Rightarrow> string \<Rightarrow> json list" where
  "parseSession pf s =
     (case JSON_parse pf (base64_utf8 pf s) of
        Some (JArray cs) \<Rightarrow> cs
      | _ \<Rightarrow> raw_session_cookies s)"

text \<open>
  The constructor (lines 46 to 55). \<open>env\<close> is \<^verbatim>\<open>process.env.TIKTOK_SESSION\<close>. An empty string is falsy:
  \<^verbatim>\<open>options.session || env\<close> passes it over, and \<^verbatim>\<open>if (this.session)\<close> skips it.
\<close>

definition TikTokUploader :: "platform \<Rightarrow> string option \<Rightarrow> uploader_options \<Rightarrow> uploader" where
  "TikTokUploader pf env opts =
     (let s = (case opt_session opts of
                 None \<Rightarrow> env
               | Some x \<Rightarrow> if x = [] then env else Some x)
      in \<lparr>session = s,
          headless = (case opt_headless opts of None \<Rightarrow> True | Some h \<Rightarrow> h),
          timeout = (case opt_timeout opts of None \<Rightarrow> 60000 | Some t \<Rightarrow> t),
          debug = (case opt_debug opts of None \<Rightarrow> False | Some d \<Rightarrow> d),
          cookies = (case s of
                       None \<Rightarrow> None
                     | Some x \<Rightarrow> if x = [] then None else Some (parseSession pf x))\<rparr>)"

text \<open>
  \<open>validateVideo\<close> (lines 82 to 103). \<^verbatim>\<open>stats.size / (1024 * 1024)\<close> is exact: the size is
  an integer and the divisor a power of two.
\<close>

definition validateVideo :: "world \<Rightarrow> string \<Rightarrow> uploader_error + string" where
  "validateVideo w videoPath =
     (let resolvedPath = resolve w videoPath in
      case stat_size w resolvedPath of
        None \<Rightarrow> Inl (VideoNotFoundError resolvedPath)
      | Some size_bytes \<Rightarrow>
          (let ext = toLowerCase (extname resolvedPath) in
           if ext \<notin> SUPPORTED_FORMATS then Inl (UnsupportedFormatError ext)
           else
             (let sizeMb = real size_bytes / (1024 * 1024) in
              if sizeMb > MAX_VIDEO_SIZE_MB
              then Inl (VideoTooLargeError sizeMb MAX_VIDEO_SIZE_MB)
              else Inr resolvedPath)))"

text \<open>\<open>setupContext\<close> (lines 108 to 121).\<close>

definition setupContext :: "uploader \<Rightarrow> world \<Rightarrow> unit run" where
  "setupContext u w =
     (case cookies u of
        None \<Rightarrow> throw LoginRequiredError
      | Some cs \<Rightarrow>
          andThen (await w SetupNewPage) (\<lambda>_.
          andThen (await w (SetupGoto TIKTOK_BASE_URL)) (\<lambda>_.
          andThen (await w (SetupWait 1000)) (\<lambda>_.
          andThen (await w (ContextAddCookies cs)) (\<lambda>_.
          await w SetupPageClose)))))"

definition modalButtons :: "string list" where
  "modalButtons = [''Cancel'', ''Not now'', ''Close'', ''Skip'', ''Got it'']"

text \<open>
  The body of the \<^verbatim>\<open>try\<close> in \<open>dismissModals\<close> (lines 126 to 144) for one label: \<open>True\<close> when it reached its
  \<^verbatim>\<open>return\<close>, \<open>False\<close> when the button is not visible.
\<close>

definition tryDismiss :: "uploader \<Rightarrow> world \<Rightarrow> string \<Rightarrow> bool run" where
  "tryDismiss u w buttonText =
     andThen (await_value w (ModalIsVisible buttonText 1000) (modal_visible w buttonText)) (\<lambda>vis.
       if vis then
         andThen (await w (ModalClick buttonText)) (\<lambda>_.
         andThen (await w (ModalWait buttonText 500)) (\<lambda>_.
         andThen (debug_log u (''Dismissed modal with '' @ [CHR 0x27] @ buttonText @ [CHR 0x27])) (\<lambda>_.
         ret True)))
       else ret False)"

text \<open>
  The loop of \<open>dismissModals\<close>: it returns after the first label whose \<^verbatim>\<open>try\<close> body reached
  \<^verbatim>\<open>return\<close>; an error thrown in the body is swallowed (\<^verbatim>\<open>catch { continue; }\<close>). The function
  is declared \<^verbatim>\<open>Promise<void>\<close>: it returns no value.
\<close>

fun dismiss_from :: "uploader \<Rightarrow> world \<Rightarrow> string list \<Rightarrow> unit run" where
  "dismiss_from u w [] = ret ()"
| "dismiss_from u w (b # bs) =
     (case tryDismiss u w b of
        (es, Inr True) \<Rightarrow> (es, Inr ())
      | (es, _) \<Rightarrow> (case dismiss_from u w bs of (es', r) \<Rightarrow> (es @ es', r)))"

definition dismissModals :: "uploader \<Rightarrow> world \<Rightarrow> unit run" where
  "dismissModals u w = dismiss_from u w modalButtons"

text \<open>
  The body of the \<^verbatim>\<open>try\<close> in \<open>findPostButton\<close> (lines 149 to 171) for the candidate \<open>i\<close>: whether the condition
  \<^verbatim>\<open>box && text === 'Post' && box.width > 100\<close> holds.
\<close>

definition inspect :: "world \<Rightarrow> nat \<Rightarrow> button \<Rightarrow> bool run" where
  "inspect w i btn =
     andThen (await_value w (TextContent i)
                (trim (case textContent btn of None \<Rightarrow> [] | Some t \<Rightarrow> t))) (\<lambda>text.
     andThen (await_value w (BoundingBox i) (boundingBox btn)) (\<lambda>box.
     ret (case box of
            None \<Rightarrow> False
          | Some bb \<Rightarrow> text = ''Post'' \<and> width bb > 100)))"

fun find_from :: "world \<Rightarrow> nat \<Rightarrow> button list \<Rightarrow> nat option run" where
  "find_from w i [] = ret None"
| "find_from w i (btn # btns) =
     (case inspect w i btn of
        (es, Inr True) \<Rightarrow> (es, Inr (Some i))
      | (es, _) \<Rightarrow> (case find_from w (Suc i) btns of (es', r) \<Rightarrow> (es @ es', r)))"

text \<open>\<open>findPostButton\<close> returns the index of the button it found among the candidates, or null.\<close>

definition findPostButton :: "world \<Rightarrow> nat option run" where
  "findPostButton w =
     andThen (await w EvaluateScrollToBottom) (\<lambda>_.
     andThen (await w (ScrollWait 500)) (\<lambda>_.
     andThen (await w LocatorAll) (\<lambda>_.
     find_from w 0 (post_buttons w))))"

text \<open>\<^verbatim>\<open>Math.round\<close>: the nearest integer, ties upwards.\<close>

definition Math_round :: "real \<Rightarrow> int" where
  "Math_round r = \<lfloor>r + 1 / 2\<rfloor>"

definition success_url :: "string \<Rightarrow> bool" where
  "success_url currentUrl = (str_includes currentUrl ''/content'' \<or> str_includes currentUrl ''/posts'')"

text \<open>
  The loop of \<open>waitForUploadComplete\<close> (lines 176 to 213): \<open>n\<close> iterations are left and \<open>i\<close>
  is the loop variable. An error thrown by the visibility check of the exit dialog is
  swallowed. The percentage is computed on the reals; the double of the source rounds to
  the same integer, since within the loop the quotient is at most 100 and, when it is not
  a half, at least \<open>1 / (2 * timeoutSeconds)\<close> away from one.
\<close>

fun poll_from :: "world \<Rightarrow> int \<Rightarrow> bool \<Rightarrow> nat \<Rightarrow> nat \<Rightarrow> bool run" where
  "poll_from w timeoutSeconds cb 0 i = ret False"
| "poll_from w timeoutSeconds cb (Suc n) i =
     andThen (await w (PollWait i 5000)) (\<lambda>_.
     andThen (report cb (Math_round (min 95 ((real (i + 1) * 5 * 100) / real_of_int timeoutSeconds)))) (\<lambda>_.
     if success_url (poll_url w i) then andThen (report cb 100) (\<lambda>_. ret True)
     else
       (case await_value w (ExitModalIsVisible i 500) (exit_modal_visible w i) of
          (es, Inr True) \<Rightarrow>
            (es @ [ConsoleError ''Exit modal appeared - upload may have failed''], Inr False)
        | (es, _) \<Rightarrow>
            (case poll_from w timeoutSeconds cb n (Suc i) of (es', r) \<Rightarrow> (es @ es', r)))))"

definition waitForUploadComplete :: "world \<Rightarrow> int \<Rightarrow> bool \<Rightarrow> bool run" where
  "waitForUploadComplete w timeoutSeconds cb =
     poll_from w timeoutSeconds cb (nat (timeoutSeconds div 5)) 0"

text \<open>The \<^verbatim>\<open>try\<close> block of \<open>upload\<close> (lines 243 to 336).\<close>

definition upload_try :: "uploader \<Rightarrow> world \<Rightarrow> string \<Rightarrow> string \<Rightarrow> bool \<Rightarrow> upload_result run" where
  "upload_try u w videoPath caption cb =
     andThen (setupContext u w) (\<lambda>_.
     andThen (await w ContextNewPage) (\<lambda>_.
     andThen (await w (PageGoto TIKTOK_UPLOAD_URL)) (\<lambda>_.
     andThen (await w (NavigationWait 3000)) (\<lambda>_.
     andThen (report cb 10) (\<lambda>_.
     if str_includes (toLowerCase (page_url w)) ''login'' then throw SessionExpiredError
     else
     andThen (debug_log u ''Uploading video file...'') (\<lambda>_.
     andThen (await w (SetInputFiles videoPath)) (\<lambda>_.
     andThen (await w (ProcessingWait 10000)) (\<lambda>_.
     andThen (report cb 40) (\<lambda>_.
     andThen (dismissModals u w) (\<lambda>_.
     andThen (debug_log u ''Setting description...'') (\<lambda>_.
     andThen (await w DescriptionClick) (\<lambda>_.
     andThen (await w (DescriptionFill caption)) (\<lambda>_.
     andThen (await w (KeyboardPress ''Escape'')) (\<lambda>_.
     andThen (await w (DescriptionWait 1000)) (\<lambda>_.
     andThen (report cb 60) (\<lambda>_.
     andThen (debug_log u ''Clicking Post...'') (\<lambda>_.
     andThen (findPostButton w) (\<lambda>postBtn.
     case postBtn of
       None \<Rightarrow>
         andThen (if debug u then await w (Screenshot ''debug_no_post_button.png'') else ret ()) (\<lambda>_.
         throw (UploadFailedError ''Could not find Post button'' None))
     | Some i \<Rightarrow>
         andThen (await w (ScrollIntoViewIfNeeded i)) (\<lambda>_.
         andThen (await w (ClickWait 500)) (\<lambda>_.
         andThen (await w (PostClick i)) (\<lambda>_.
         andThen (report cb 70) (\<lambda>_.
         andThen (debug_log u ''Waiting for upload to complete...'') (\<lambda>_.
         andThen (waitForUploadComplete w (timeout u div 1000) cb) (\<lambda>ok.
         if ok then
           andThen (debug_log u ''Upload successful!'') (\<lambda>_.
           ret \<lparr>success = True, videoId = None, videoUrl = None,
                status = ''uploaded'', error = None\<rparr>)
         else
           andThen (if debug u then await w (Screenshot ''debug_upload_failed.png'') else ret ()) (\<lambda>_.
           throw (UploadFailedError ''Upload did not complete successfully''
                    (if debug u then Some ''debug_upload_failed.png'' else None)))))))))))))))))))))))))))"

text \<open>
  The \<^verbatim>\<open>catch\<close> block of \<open>upload\<close>: the three typed errors are thrown again, anything else
  becomes an \<open>UploadFailedError\<close> carrying its rendering.
\<close>

definition upload_catch :: "uploader_error \<Rightarrow> upload_result run" where
  "upload_catch e =
     (case e of
        LoginRequiredError \<Rightarrow> throw e
      | SessionExpiredError \<Rightarrow> throw e
      | UploadFailedError m sp \<Rightarrow> throw e
      | _ \<Rightarrow> throw (UploadFailedError (String_error e) None))"

text \<open>
  \<open>upload\<close> (lines 223 to 349). Validation, the first progress report, the launch and the creation of the
  context stand before the \<^verbatim>\<open>try\<close>; \<^verbatim>\<open>browser.close()\<close> is its \<^verbatim>\<open>finally\<close>.
\<close>

definition upload :: "uploader \<Rightarrow> world \<Rightarrow> string \<Rightarrow> string \<Rightarrow> upload_options \<Rightarrow> upload_result run" where
  "upload u w vid caption options =
     (case validateVideo w vid of
        Inl e \<Rightarrow> throw e
      | Inr videoPath \<Rightarrow>
          andThen (debug_log u (''Uploading: '' @ videoPath)) (\<lambda>_.
          andThen (report (onProgress options) 0) (\<lambda>_.
          andThen (await w (ChromiumLaunch (headless u))) (\<lambda>_.
          andThen (await w (BrowserNewContext 1280 1024)) (\<lambda>_.
          try_finally
            (try_catch (upload_try u w videoPath caption (onProgress options)) upload_catch)
            (await w BrowserClose))))))"

text \<open>The result \<open>uploadMany\<close> records for an upload that threw.\<close>

definition failed_result :: "uploader_error \<Rightarrow> upload_result" where
  "failed_result e =
     \<lparr>success = False, videoId = None, videoUrl = None,
      status = ''failed'', error = Some (String_error e)\<rparr>"

definition result_of :: "uploader_error + upload_result \<Rightarrow> upload_result" where
  "result_of r = (case r of Inl e \<Rightarrow> failed_result e | Inr res \<Rightarrow> res)"

text \<open>
  \<^verbatim>\<open>onVideoComplete\<close>, when it is supplied: a callback, which returns or throws. \<open>f i result\<close>
  is \<open>None\<close> when the call \<^verbatim>\<open>onVideoComplete(i, result)\<close> returns, and \<open>Some s\<close> when it throws,
  \<open>s\<close> being \<^verbatim>\<open>String\<close> of the thrown value.
\<close>

type_synonym completion = "nat \<Rightarrow> upload_result \<Rightarrow> string option"

text \<open>\<^verbatim>\<open>if (onVideoComplete) { onVideoComplete(i, result); }\<close>\<close>

definition complete :: "completion option \<Rightarrow> nat \<Rightarrow> upload_result \<Rightarrow> unit run" where
  "complete cb i result =
     (case cb of
        None \<Rightarrow> ret ()
      | Some f \<Rightarrow>
          (case f i result of
             None \<Rightarrow> ([VideoComplete i result], Inr ())
           | Some s \<Rightarrow> ([VideoComplete i result], Inl (PlatformError s))))"

text \<open>
  The loop of \<open>uploadMany\<close> (lines 358 to 388) from the index \<open>i\<close> on. \<open>worlds i\<close> is the world the upload of
  the request \<open>i\<close> meets. Every error of \<open>upload\<close> is caught and becomes a result. The call of
  the callback stands after the \<^verbatim>\<open>try\<close> statement, outside it: what the callback throws leaves
  \<open>uploadMany\<close>, and the loop ends there. The results are returned when the loop has gone
  through all requests.
\<close>

fun uploadMany_from ::
  "uploader \<Rightarrow> (nat \<Rightarrow> world) \<Rightarrow> completion option \<Rightarrow> nat \<Rightarrow> video_info list \<Rightarrow> upload_result list run"
where
  "uploadMany_from u worlds cb i [] = ret []"
| "uploadMany_from u worlds cb i (videoInfo # rest) =
     (case upload u (worlds i) (video videoInfo) (description videoInfo)
             \<lparr>visibility = vi_visibility videoInfo, onProgress = False\<rparr> of
        (es, r) \<Rightarrow>
          (case complete cb i (result_of r) of
             (cs, Inl e) \<Rightarrow> (es @ cs, Inl e)
           | (cs, Inr _) \<Rightarrow>
               (case uploadMany_from u worlds cb (Suc i) rest of
                  (es', Inl e) \<Rightarrow> (es @ cs @ es', Inl e)
                | (es', Inr results) \<Rightarrow> (es @ cs @ es', Inr (result_of r # results)))))"

definition uploadMany ::
  "uploader \<Rightarrow> (nat \<Rightarrow> world) \<Rightarrow> video_info list \<Rightarrow> completion option \<Rightarrow> upload_result list run"
where
  "uploadMany u worlds videos cb = uploadMany_from u worlds cb 0 videos"

subsection \<open>auth.ts: getSession\<close>

text \<open>
  What \<open>getSession\<close> reads: the environment variables, the files (\<open>file_text p\<close> is \<open>None\<close>
  when \<^verbatim>\<open>fs.existsSync(p)\<close> is false, otherwise the text \<^verbatim>\<open>fs.readFileSync(p, 'utf-8')\<close>
  returns), \<^verbatim>\<open>path.resolve\<close>, and the default session file
  \<^verbatim>\<open>path.join(os.homedir(), '.tiktok_session')\<close>.
\<close>

record host =
  env_var :: "string \<Rightarrow> string option"
  file_text :: "string \<Rightarrow> string option"
  host_resolve :: "string \<Rightarrow> string"
  default_session_file :: string

text \<open>
  \<open>getSession\<close> (auth.ts, lines 117 to 147): the parameter, then the environment variable,
  then the file given, then the default file; an empty string counts as absent. It calls
  no browser.
\<close>

definition getSession :: "host \<Rightarrow> string option \<Rightarrow> string \<Rightarrow> string option \<Rightarrow> uploader_error + string" where
  "getSession h session_arg envVar filePath =
     (let from_default =
            (case file_text h (default_session_file h) of
               Some t \<Rightarrow> Inr (trim t)
             | None \<Rightarrow> Inl LoginRequiredError);
          from_file =
            (case filePath of
               None \<Rightarrow> from_default
             | Some f \<Rightarrow>
                 if f = [] then from_default
                 else (case file_text h (host_resolve h f) of
                         Some t \<Rightarrow> Inr (trim t)
                       | None \<Rightarrow> from_default));
          from_env =
            (case env_var h envVar of
               None \<Rightarrow> from_file
             | Some e \<Rightarrow> if e = [] then from_file else Inr e)
      in case session_arg of
           None \<Rightarrow> from_env
         | Some s \<Rightarrow> if s = [] then from_env else Inr s)"

section \<open>Notions the properties are stated with\<close>

subsection \<open>Observations on the events of a run\<close>

definition progress_values :: "event list \<Rightarrow> int list" where
  "progress_values es = concat (map (\<lambda>e. case e of Progress n \<Rightarrow> [n] | _ \<Rightarrow> []) es)"

definition poll_ticks :: "event list \<Rightarrow> nat list" where
  "poll_ticks es = concat (map (\<lambda>e. case e of Call (PollWait i ms) \<Rightarrow> [i] | _ \<Rightarrow> []) es)"

definition calls :: "event list \<Rightarrow> call list" where
  "calls es = concat (map (\<lambda>e. case e of Call c \<Rightarrow> [c] | _ \<Rightarrow> []) es)"



text \<open>The upload of the request \<open>i\<close> of a batch, as \<open>uploadMany\<close> calls it.\<close>

definition attempt :: "uploader \<Rightarrow> (nat \<Rightarrow> world) \<Rightarrow> video_info list \<Rightarrow> nat \<Rightarrow> upload_result run" where
  "attempt u worlds videos i =
     upload u (worlds i) (video (videos ! i)) (description (videos ! i))
       \<lparr>visibility = vi_visibility (videos ! i), onProgress = False\<rparr>"

text \<open>The result \<open>uploadMany\<close> records for the request \<open>i\<close>.\<close>

definition outcome :: "uploader \<Rightarrow> (nat \<Rightarrow> world) \<Rightarrow> video_info list \<Rightarrow> nat \<Rightarrow> upload_result" where
  "outcome u worlds videos i = result_of (snd (attempt u worlds videos i))"

text \<open>What the completion callback throws when called with \<open>i\<close> and \<open>r\<close>, if it throws.\<close>

definition thrown :: "completion option \<Rightarrow> nat \<Rightarrow> upload_result \<Rightarrow> string option" where
  "thrown cb i r = (case cb of None \<Rightarrow> None | Some f \<Rightarrow> f i r)"

text \<open>What the completion callback throws for the request \<open>i\<close> and its result, if it throws.\<close>

definition callback_throws ::
  "completion option \<Rightarrow> uploader \<Rightarrow> (nat \<Rightarrow> world) \<Rightarrow> video_info list \<Rightarrow> nat \<Rightarrow> string option"
where
  "callback_throws cb u worlds videos i =
     (case cb of None \<Rightarrow> None | Some f \<Rightarrow> f i (outcome u worlds videos i))"

text \<open>
  The events of the requests 0 to \<open>n - 1\<close> of a batch, one request after the other: the
  events of its upload, then the call of the completion callback with its result, when a
  callback is supplied.
\<close>

definition batch_events ::
  "uploader \<Rightarrow> (nat \<Rightarrow> world) \<Rightarrow> video_info list \<Rightarrow> completion option \<Rightarrow> nat \<Rightarrow> event list"
where
  "batch_events u worlds videos cb n =
     concat (map (\<lambda>i. fst (attempt u worlds videos i)
                        @ (if cb = None then [] else [VideoComplete i (outcome u worlds videos i)]))
               [0 ..< n])"

text \<open>A JSON value with the shape of a cookie record: the four fields, each a string.\<close>

definition is_cookie_record :: "json \<Rightarrow> bool" where
  "is_cookie_record j =
     (case j of
        JObject ms \<Rightarrow>
          map fst ms = [''name'', ''value'', ''domain'', ''path'']
          \<and> list_all (\<lambda>v. case v of JString s \<Rightarrow> True | _ \<Rightarrow> False) (map snd ms)
      | _ \<Rightarrow> False)"

text \<open>
  The candidate \<open>i\<close> answers both queries, its trimmed text is exactly \<^verbatim>\<open>Post\<close> and its
  bounding box is wider than 100.
\<close>

definition is_real_post_button :: "world \<Rightarrow> nat \<Rightarrow> button \<Rightarrow> bool" where
  "is_real_post_button w i btn =
     (throws w (TextContent i) = None \<and> throws w (BoundingBox i) = None
      \<and> trim (case textContent btn of None \<Rightarrow> [] | Some t \<Rightarrow> t) = ''Post''
      \<and> (case boundingBox btn of None \<Rightarrow> False | Some bb \<Rightarrow> width bb > 100))"

text \<open>
  The label \<open>b\<close> can be dismissed: its button is reported visible, and the visibility
  check, the click and the pause after it all resolve.
\<close>

definition dismissable :: "world \<Rightarrow> string \<Rightarrow> bool" where
  "dismissable w b =
     (throws w (ModalIsVisible b 1000) = None \<and> modal_visible w b
      \<and> throws w (ModalClick b) = None \<and> throws w (ModalWait b 500) = None)"

text \<open>The exit dialog is seen at the polling tick \<open>i\<close>: the check resolves, to true.\<close>

definition exit_seen :: "world \<Rightarrow> nat \<Rightarrow> bool" where
  "exit_seen w i = (throws w (ExitModalIsVisible i 500) = None \<and> exit_modal_visible w i)"




text \<open>The percentage \<open>waitForUploadComplete\<close> reports at the tick \<open>i\<close>.\<close>

definition tick_progress :: "int \<Rightarrow> nat \<Rightarrow> int" where
  "tick_progress timeoutSeconds i =
     Math_round (min 95 ((real (i + 1) * 5 * 100) / real_of_int timeoutSeconds))"

subsection \<open>Example surroundings\<close>

text \<open>
  A working directory \<^verbatim>\<open>/videos\<close> with five files, and a browser in which nothing throws,
  no dialog shows, the upload page offers three buttons whose text contains \<^verbatim>\<open>Post\<close>
  (the third has a no-break space before the word and a space after it), and the page
  has moved to the content list by the second polling tick.
\<close>

definition studio_files :: "(string \<times> nat) list" where
  "studio_files =
     [(''/videos/clip.mp4'', 10485760),
      (''/videos/limit.mov'', 300941312),
      (''/videos/huge.MP4'', 300941313),
      (''/videos/big.avi'', 400000000),
      (''/videos/notes.txt'', 5)]"

definition studio_world :: world where
  "studio_world =
     \<lparr>resolve = (\<lambda>p. ''/videos/'' @ p),
      stat_size = map_of studio_files,
      throws = (\<lambda>c. None),
      page_url = TIKTOK_UPLOAD_URL,
      modal_visible = (\<lambda>b. False),
      post_buttons =
        [\<lparr>textContent = Some ''Post'', boundingBox = Some \<lparr>width = 24, height = 24\<rparr>\<rparr>,
         \<lparr>textContent = Some ''Post now'', boundingBox = Some \<lparr>width = 180, height = 40\<rparr>\<rparr>,
         \<lparr>textContent = Some (utf8 0xA0 @ ''Post ''), boundingBox = Some \<lparr>width = 120, height = 40\<rparr>\<rparr>],
      poll_url = (\<lambda>i. if i = 0 then TIKTOK_UPLOAD_URL
                       else ''https://www.tiktok.com/tiktokstudio/content''),
      exit_modal_visible = (\<lambda>i. False)\<rparr>"

definition no_options :: uploader_options where
  "no_options = \<lparr>opt_session = None, opt_headless = None, opt_timeout = None, opt_debug = None\<rparr>"

text \<open>
  Two uploaders built with no options: one in an environment whose \<^verbatim>\<open>TIKTOK_SESSION\<close> is
  the raw session id \<^verbatim>\<open>abc123\<close>, one in an environment without the variable.
\<close>

definition env_uploader :: uploader where
  "env_uploader = TikTokUploader node (Some ''abc123'') no_options"

definition anonymous_uploader :: uploader where
  "anonymous_uploader = TikTokUploader node None no_options"

text \<open>A machine with no environment variable and no file.\<close>

definition bare_host :: host where
  "bare_host = \<lparr>env_var = (\<lambda>n. None), file_text = (\<lambda>p. None),
                 host_resolve = (\<lambda>p. ''/videos/'' @ p),
                 default_session_file = ''/home/user/.tiktok_session''\<rparr>"

text \<open>The studio without its third button: no candidate is the real one.\<close>

definition no_real_button_world :: world where
  "no_real_button_world = studio_world\<lparr>post_buttons := take 2 (post_buttons studio_world)\<rparr>"

text \<open>The studio with a dialog whose \<^verbatim>\<open>Cancel\<close> button shows.\<close>

definition cancel_world :: world where
  "cancel_world = studio_world\<lparr>modal_visible := (\<lambda>b. b = ''Cancel'')\<rparr>"

text \<open>
  The studio with \<^verbatim>\<open>Cancel\<close> and \<^verbatim>\<open>Close\<close> showing, where the click on \<^verbatim>\<open>Cancel\<close> times
  out.
\<close>

definition stubborn_world :: world where
  "stubborn_world =
     studio_world\<lparr>modal_visible := (\<lambda>b. b = ''Cancel'' \<or> b = ''Close''),
                  throws := (\<lambda>c. if c = ModalClick ''Cancel''
                                  then Some ''Error: locator.click: Timeout 30000ms exceeded.''
                                  else None)\<rparr>"



text \<open>The studio whose browser launches but cannot create a context.\<close>

definition context_fails_world :: world where
  "context_fails_world =
     studio_world\<lparr>throws := (\<lambda>c. if c = BrowserNewContext 1280 1024
                                  then Some ''Error: browser.newContext: Target page, context or browser has been closed''
                                  else None)\<rparr>"

text \<open>A batch of two requests: the first names a file that does not exist.\<close>

definition example_batch :: "video_info list" where
  "example_batch =
     [\<lparr>video = ''missing.mp4'', description = ''first'', vi_visibility = None\<rparr>,
      \<lparr>video = ''clip.mp4'', description = ''second'', vi_visibility = Some Friends\<rparr>]"

text \<open>
  Three completion callbacks: one that returns, one that throws at the request 1, one
  that throws when the result it is given is a failure.
\<close>

definition quiet_callback :: completion where
  "quiet_callback i result = None"

definition late_callback :: completion where
  "late_callback i result = (if i = 1 then Some ''Error: no more'' else None)"

definition strict_callback :: completion where
  "strict_callback i result = (if success result then None else Some ''Error: upload failed'')"



section \<open>Properties\<close>

subsection \<open>Runs\<close>

lemma andThen_Inr: "andThen (es, Inr v) f = (case f v of (es', r) \<Rightarrow> (es @ es', r))"
  by (simp add: andThen_def)

lemma andThen_Inl: "andThen (es, Inl e) f = (es, Inl e)"
  by (simp add: andThen_def)

lemma andThen_ret: "andThen (ret v) f = f v"
  by (simp add: andThen_def ret_def split: prod.splits)

lemma andThen_throw: "andThen (throw e) f = throw e"
  by (simp add: andThen_def throw_def)

lemma fst_andThen:
  "fst (andThen m f) = fst m @ (case snd m of Inl e \<Rightarrow> [] | Inr v \<Rightarrow> fst (f v))"
  by (cases m) (auto simp: andThen_def split: sum.splits prod.splits)

lemmas run_defs = ret_def throw_def emit_def await_def await_value_def report_def debug_log_def

lemma poll_ticks_append: "poll_ticks (xs @ ys) = poll_ticks xs @ poll_ticks ys"
  by (simp add: poll_ticks_def)

lemma progress_values_append: "progress_values (xs @ ys) = progress_values xs @ progress_values ys"
  by (simp add: progress_values_def)



lemma poll_ticks_simps:
  "poll_ticks [] = []"
  "poll_ticks (Call c # es) = (case c of PollWait i ms \<Rightarrow> [i] | _ \<Rightarrow> []) @ poll_ticks es"
  "poll_ticks (Progress n # es) = poll_ticks es"
  "poll_ticks (ConsoleLog s # es) = poll_ticks es"
  "poll_ticks (ConsoleError s # es) = poll_ticks es"
  by (simp_all add: poll_ticks_def split: call.splits)

lemma progress_values_simps:
  "progress_values [] = []"
  "progress_values (Call c # es) = progress_values es"
  "progress_values (Progress n # es) = n # progress_values es"
  "progress_values (ConsoleLog s # es) = progress_values es"
  "progress_values (ConsoleError s # es) = progress_values es"
  by (simp_all add: progress_values_def)

lemma calls_simps:
  "calls [] = []"
  "calls (Call c # es) = c # calls es"
  "calls (Progress n # es) = calls es"
  "calls (ConsoleLog s # es) = calls es"
  "calls (ConsoleError s # es) = calls es"
  by (simp_all add: calls_def)

subsection \<open>The example surroundings\<close>

lemma studio_resolve: "resolve studio_world p = ''/videos/'' @ p"
  by (simp add: studio_world_def)

lemma studio_stat:
  "stat_size studio_world ''/videos/missing.mp4'' = None"
  "stat_size studio_world ''/videos/big.avi'' = Some 400000000"
  "stat_size studio_world ''/videos/huge.MP4'' = Some 300941313"
  "stat_size studio_world ''/videos/limit.mov'' = Some 300941312"
  "stat_size studio_world ''/videos/clip.mp4'' = Some 10485760"
  by (simp_all add: studio_world_def studio_files_def)

lemma ext_examples:
  "toLowerCase (extname ''/videos/missing.mp4'') = ''.mp4''"
  "toLowerCase (extname ''/videos/big.avi'') = ''.avi''"
  "toLowerCase (extname ''/videos/huge.MP4'') = ''.mp4''"
  "toLowerCase (extname ''/videos/limit.mov'') = ''.mov''"
  "toLowerCase (extname ''/videos/clip.mp4'') = ''.mp4''"
  by (simp_all add: extname_def toLowerCase_def lower_char_def)

text \<open>The white space characters in their encodings.\<close>

lemma white_space_bytes:
  "map utf8 white_space =
     [[CHR 0x09], [CHR 0x0B], [CHR 0x0C], [CHR 0xEF, CHR 0xBB, CHR 0xBF],
      [CHR 0x20], [CHR 0xC2, CHR 0xA0], [CHR 0xE1, CHR 0x9A, CHR 0x80],
      [CHR 0xE2, CHR 0x80, CHR 0x80], [CHR 0xE2, CHR 0x80, CHR 0x81], [CHR 0xE2, CHR 0x80, CHR 0x82],
      [CHR 0xE2, CHR 0x80, CHR 0x83], [CHR 0xE2, CHR 0x80, CHR 0x84], [CHR 0xE2, CHR 0x80, CHR 0x85],
      [CHR 0xE2, CHR 0x80, CHR 0x86], [CHR 0xE2, CHR 0x80, CHR 0x87], [CHR 0xE2, CHR 0x80, CHR 0x88],
      [CHR 0xE2, CHR 0x80, CHR 0x89], [CHR 0xE2, CHR 0x80, CHR 0x8A],
      [CHR 0xE2, CHR 0x80, CHR 0xAF], [CHR 0xE2, CHR 0x81, CHR 0x9F], [CHR 0xE3, CHR 0x80, CHR 0x80],
      [CHR 0x0A], [CHR 0x0D], [CHR 0xE2, CHR 0x80, CHR 0xA8], [CHR 0xE2, CHR 0x80, CHR 0xA9]]"
  by (simp add: white_space_def utf8_def char_of_eq_iff)

lemma white_space_bytes_rev: "map (rev \<circ> utf8) white_space = map rev (map utf8 white_space)"
  by simp

text \<open>
  The texts of the three buttons of the studio, trimmed (the third is the bytes C2 A0,
  \<^verbatim>\<open>Post\<close> and a space), and a text between a byte order mark and a line separator with
  a tab.
\<close>

lemma trim_examples:
  "trim ''Post'' = ''Post''"
  "trim ''Post now'' = ''Post now''"
  "trim (utf8 0xA0 @ ''Post '') = ''Post''"
  "trim (utf8 0xFEFF @ ''Post it'' @ utf8 0x2028 @ utf8 0x09) = ''Post it''"
  by (simp_all add: trim_def white_space_bytes_rev white_space_bytes utf8_def char_of_eq_iff)

lemma studio_fields:
  "throws studio_world c = None"
  "page_url studio_world = TIKTOK_UPLOAD_URL"
  "modal_visible studio_world b = False"
  "post_buttons studio_world =
        [\<lparr>textContent = Some ''Post'', boundingBox = Some \<lparr>width = 24, height = 24\<rparr>\<rparr>,
         \<lparr>textContent = Some ''Post now'', boundingBox = Some \<lparr>width = 180, height = 40\<rparr>\<rparr>,
         \<lparr>textContent = Some (utf8 0xA0 @ ''Post ''), boundingBox = Some \<lparr>width = 120, height = 40\<rparr>\<rparr>]"
  "poll_url studio_world i = (if i = 0 then TIKTOK_UPLOAD_URL
                       else ''https://www.tiktok.com/tiktokstudio/content'')"
  "exit_modal_visible studio_world i = False"
  by (simp_all add: studio_world_def)

lemma cancel_fields:
  "throws cancel_world c = None"
  "modal_visible cancel_world b = (b = ''Cancel'')"
  by (simp_all add: cancel_world_def studio_fields)

lemma stubborn_fields:
  "throws stubborn_world c = (if c = ModalClick ''Cancel''
                                  then Some ''Error: locator.click: Timeout 30000ms exceeded.''
                                  else None)"
  "modal_visible stubborn_world b = (b = ''Cancel'' \<or> b = ''Close'')"
  by (simp_all add: stubborn_world_def studio_fields)



lemma context_fails_fields:
  "throws context_fails_world c = (if c = BrowserNewContext 1280 1024
       then Some ''Error: browser.newContext: Target page, context or browser has been closed''
       else None)"
  "resolve context_fails_world = resolve studio_world"
  "stat_size context_fails_world = stat_size studio_world"
  by (simp_all add: context_fails_world_def studio_fields)

lemma node_rejects_raw_id: "JSON_parse node (base64_utf8 node ''abc123'') = None"
  by code_simp

lemma env_uploader_fields:
  "cookies env_uploader = Some (raw_session_cookies ''abc123'')"
  "debug env_uploader = False" "headless env_uploader = True" "timeout env_uploader = 60000"
  by (simp_all add: env_uploader_def TikTokUploader_def no_options_def parseSession_def
        node_rejects_raw_id)

lemma anonymous_uploader_fields:
  "cookies anonymous_uploader = None"
  "debug anonymous_uploader = False" "headless anonymous_uploader = True"
  "timeout anonymous_uploader = 60000"
  by (simp_all add: anonymous_uploader_def TikTokUploader_def no_options_def)

lemma validate_clip:
  "resolve w = resolve studio_world \<Longrightarrow> stat_size w = stat_size studio_world \<Longrightarrow>
   validateVideo w ''clip.mp4'' = Inr ''/videos/clip.mp4''"
  by (simp add: validateVideo_def studio_resolve studio_stat ext_examples SUPPORTED_FORMATS_def
        MAX_VIDEO_SIZE_MB_def)

lemma upload_page_is_no_login_page:
  "\<not> str_includes (toLowerCase TIKTOK_UPLOAD_URL) ''login''"
  by (simp add: TIKTOK_UPLOAD_URL_def toLowerCase_def lower_char_def)

lemma upload_page_is_no_success_page: "\<not> success_url TIKTOK_UPLOAD_URL"
  by (simp add: TIKTOK_UPLOAD_URL_def success_url_def)

lemma content_page_is_success_page: "success_url ''https://www.tiktok.com/tiktokstudio/content''"
  by (simp add: success_url_def)

subsection \<open>Video validation\<close>

lemma size_limit: "(real n / (1024 * 1024) > MAX_VIDEO_SIZE_MB) = (n > 287 * 1024 * 1024)"
proof -
  have "(real n / (1024 * 1024) > 287) = (real n > 287 * (1024 * 1024))"
    by (simp add: field_simps)
  also have "\<dots> = (n > 287 * 1024 * 1024)"
    by (metis (no_types) of_nat_less_iff of_nat_numeral of_nat_mult mult.assoc)
  finally show ?thesis by (simp add: MAX_VIDEO_SIZE_MB_def)
qed

text \<open>
  C4. \<open>validateVideo\<close> checks existence, then format, then size, and reports the first
  check that fails: a path that resolves to nothing that exists gives \<open>VideoNotFoundError\<close>
  whatever its extension; an existing file whose lower-cased extension is not one of
  \<^verbatim>\<open>.mp4\<close>, \<^verbatim>\<open>.mov\<close>, \<^verbatim>\<open>.webm\<close> gives \<open>UnsupportedFormatError\<close> whatever its size; a file
  with a supported extension gives \<open>VideoTooLargeError\<close> exactly when it has more than
  287 * 1024 * 1024 bytes, and validates otherwise.
\<close>

theorem validateVideo_first_violation:
  "(stat_size w (resolve w v) = None \<longrightarrow>
      validateVideo w v = Inl (VideoNotFoundError (resolve w v)))
   \<and> (stat_size w (resolve w v) = Some n
        \<and> toLowerCase (extname (resolve w v)) \<notin> SUPPORTED_FORMATS \<longrightarrow>
      validateVideo w v = Inl (UnsupportedFormatError (toLowerCase (extname (resolve w v)))))
   \<and> (stat_size w (resolve w v) = Some n
        \<and> toLowerCase (extname (resolve w v)) \<in> SUPPORTED_FORMATS
        \<and> n > 287 * 1024 * 1024 \<longrightarrow>
      validateVideo w v = Inl (VideoTooLargeError (real n / (1024 * 1024)) MAX_VIDEO_SIZE_MB))
   \<and> (stat_size w (resolve w v) = Some n
        \<and> toLowerCase (extname (resolve w v)) \<in> SUPPORTED_FORMATS
        \<and> n \<le> 287 * 1024 * 1024 \<longrightarrow>
      validateVideo w v = Inr (resolve w v))"
  using size_limit [of n] by (auto simp: validateVideo_def Let_def)

text \<open>
  The four cases in the example directory: a missing file with a supported extension, a
  400 MB file with an unsupported one, a file one byte over the limit with an upper-case
  extension, and a file of exactly the limit.
\<close>

theorem validateVideo_first_violation_witness:
  "validateVideo studio_world ''missing.mp4'' = Inl (VideoNotFoundError ''/videos/missing.mp4'')
   \<and> validateVideo studio_world ''big.avi'' = Inl (UnsupportedFormatError ''.avi'')
   \<and> validateVideo studio_world ''huge.MP4''
        = Inl (VideoTooLargeError (300941313 / (1024 * 1024)) 287)
   \<and> validateVideo studio_world ''limit.mov'' = Inr ''/videos/limit.mov''"
  using validateVideo_first_violation [of studio_world "''missing.mp4''" 0]
    validateVideo_first_violation [of studio_world "''big.avi''" 400000000]
    validateVideo_first_violation [of studio_world "''huge.MP4''" 300941313]
    validateVideo_first_violation [of studio_world "''limit.mov''" 300941312]
  by (simp add: studio_resolve studio_stat ext_examples SUPPORTED_FORMATS_def
        MAX_VIDEO_SIZE_MB_def)

subsection \<open>Session decoding\<close>

text \<open>
  C3, as the code has it. \<open>parseSession\<close> is total. When the base64-decoded text parses
  as a JSON array, it returns exactly that array, whatever the elements are; for any
  other input (the text does not parse, or parses to a value that is not an array) it
  returns exactly two cookie records, \<^verbatim>\<open>sessionid\<close> and \<^verbatim>\<open>sessionid_ss\<close>, with the raw input
  as value, the domain \<^verbatim>\<open>.tiktok.com\<close> and the path \<^verbatim>\<open>/\<close>.
\<close>

theorem parseSession_array_or_raw:
  "(JSON_parse pf (base64_utf8 pf s) = Some (JArray cs) \<longrightarrow> parseSession pf s = cs)
   \<and> ((\<forall>js. JSON_parse pf (base64_utf8 pf s) \<noteq> Some (JArray js)) \<longrightarrow>
        parseSession pf s =
          [JObject [(''name'', JString ''sessionid''), (''value'', JString s),
                    (''domain'', JString ''.tiktok.com''), (''path'', JString ''/'')],
           JObject [(''name'', JString ''sessionid_ss''), (''value'', JString s),
                    (''domain'', JString ''.tiktok.com''), (''path'', JString ''/'')]])"
  by (auto simp: parseSession_def raw_session_cookies_def cookie_json_def
           split: option.splits json.splits)

lemma node_reads_cookie_token:
  "JSON_parse node (base64_utf8 node
     ''W3sibmFtZSI6InNlc3Npb25pZCIsInZhbHVlIjoiYWJjIiwiZG9tYWluIjoiLnRpa3Rvay5jb20iLCJwYXRoIjoiLyJ9XQ=='')
   = Some (JArray [cookie_json \<lparr>name = ''sessionid'', value = ''abc'',
                                 domain = ''.tiktok.com'', path = ''/''\<rparr>])"
  by code_simp

text \<open>
  A token as \<^verbatim>\<open>interactiveLogin\<close> builds it (one cookie) decodes to that cookie; the raw
  session id \<^verbatim>\<open>abc123\<close> decodes to the two synthesized cookies.
\<close>

theorem parseSession_array_or_raw_witness:
  "parseSession node
     ''W3sibmFtZSI6InNlc3Npb25pZCIsInZhbHVlIjoiYWJjIiwiZG9tYWluIjoiLnRpa3Rvay5jb20iLCJwYXRoIjoiLyJ9XQ==''
     = [cookie_json \<lparr>name = ''sessionid'', value = ''abc'', domain = ''.tiktok.com'', path = ''/''\<rparr>]
   \<and> parseSession node ''abc123'' =
         [JObject [(''name'', JString ''sessionid''), (''value'', JString ''abc123''),
                   (''domain'', JString ''.tiktok.com''), (''path'', JString ''/'')],
          JObject [(''name'', JString ''sessionid_ss''), (''value'', JString ''abc123''),
                   (''domain'', JString ''.tiktok.com''), (''path'', JString ''/'')]]"
  using parseSession_array_or_raw [of node
      "''W3sibmFtZSI6InNlc3Npb25pZCIsInZhbHVlIjoiYWJjIiwiZG9tYWluIjoiLnRpa3Rvay5jb20iLCJwYXRoIjoiLyJ9XQ==''"
      "[cookie_json \<lparr>name = ''sessionid'', value = ''abc'', domain = ''.tiktok.com'', path = ''/''\<rparr>]"]
    parseSession_array_or_raw [of node "''abc123''"]
  by (simp add: node_reads_cookie_token node_rejects_raw_id)

lemma node_reads_number_array:
  "JSON_parse node (base64_utf8 node ''WzFd'') = Some (JArray [JNumber ''1''])"
  by code_simp

text \<open>
  The input \<^verbatim>\<open>WzFd\<close> is the base64 encoding of the text \<^verbatim>\<open>[1]\<close>: a JSON array, but not a
  list of cookie records. \<open>parseSession\<close> returns the array \<open>[1]\<close>, not the two synthesized
  cookies.
\<close>

theorem parseSession_unchecked_array_counterexample:
  "JSON_parse node (base64_utf8 node ''WzFd'') = Some (JArray [JNumber ''1''])
   \<and> \<not> list_all is_cookie_record [JNumber ''1'']
   \<and> parseSession node ''WzFd'' = [JNumber ''1'']
   \<and> parseSession node ''WzFd'' \<noteq> raw_session_cookies ''WzFd''"
  by (simp add: node_reads_number_array parseSession_def is_cookie_record_def
        raw_session_cookies_def)

subsection \<open>The Post button\<close>

lemma inspect_True: "(snd (inspect w i btn) = Inr True) = is_real_post_button w i btn"
  by (auto simp: inspect_def is_real_post_button_def await_value_def await_def andThen_def ret_def
      split: option.splits)

lemma find_from_step:
  "find_from w i (btn # btns) =
     (if is_real_post_button w i btn then (fst (inspect w i btn), Inr (Some i))
      else (fst (inspect w i btn) @ fst (find_from w (Suc i) btns), snd (find_from w (Suc i) btns)))"
  using inspect_True [of w i btn]
  by (cases "inspect w i btn") (auto split: sum.splits bool.splits prod.splits)

lemma find_from_returns: "\<exists>r. snd (find_from w i btns) = Inr r"
  by (induction btns arbitrary: i) (auto simp: find_from_step ret_def simp del: find_from.simps(2))

lemma find_from_None:
  "(snd (find_from w i btns) = Inr None)
     = (\<forall>k < length btns. \<not> is_real_post_button w (i + k) (btns ! k))"
proof (induction btns arbitrary: i)
  case Nil
  then show ?case by (simp add: ret_def)
next
  case (Cons btn btns)
  show ?case
    using Cons.IH [of "Suc i"]
    by (auto simp: find_from_step All_less_Suc2 simp del: find_from.simps(2))
qed

lemma find_from_Some:
  "(snd (find_from w i btns) = Inr (Some j))
     = (\<exists>k < length btns. j = i + k \<and> is_real_post_button w (i + k) (btns ! k)
          \<and> (\<forall>k' < k. \<not> is_real_post_button w (i + k') (btns ! k')))"
proof (induction btns arbitrary: i)
  case Nil
  then show ?case by (simp add: ret_def)
next
  case (Cons btn btns)
  show ?case
  proof (cases "is_real_post_button w i btn")
    case True
    have "(\<exists>k < length (btn # btns). j = i + k \<and> is_real_post_button w (i + k) ((btn # btns) ! k)
          \<and> (\<forall>k' < k. \<not> is_real_post_button w (i + k') ((btn # btns) ! k'))) = (j = i)"
    proof
      assume "\<exists>k < length (btn # btns). j = i + k \<and> is_real_post_button w (i + k) ((btn # btns) ! k)
          \<and> (\<forall>k' < k. \<not> is_real_post_button w (i + k') ((btn # btns) ! k'))"
      then obtain k where k: "j = i + k" "\<forall>k' < k. \<not> is_real_post_button w (i + k') ((btn # btns) ! k')"
        by blast
      have "k = 0"
      proof (rule ccontr)
        assume "k \<noteq> 0"
        then have "0 < k" by simp
        with k(2) have "\<not> is_real_post_button w (i + 0) ((btn # btns) ! 0)" by blast
        with True show False by simp
      qed
      with k show "j = i" by simp
    next
      assume "j = i"
      with True show "\<exists>k < length (btn # btns). j = i + k \<and> is_real_post_button w (i + k) ((btn # btns) ! k)
          \<and> (\<forall>k' < k. \<not> is_real_post_button w (i + k') ((btn # btns) ! k'))"
        by (intro exI [of _ 0]) simp
    qed
    with True show ?thesis
      by (auto simp: find_from_step simp del: find_from.simps(2))
  next
    case False
    have "(\<exists>k < length (btn # btns). j = i + k \<and> is_real_post_button w (i + k) ((btn # btns) ! k)
          \<and> (\<forall>k' < k. \<not> is_real_post_button w (i + k') ((btn # btns) ! k')))
       = (\<exists>k < length btns. j = Suc i + k \<and> is_real_post_button w (Suc i + k) (btns ! k)
          \<and> (\<forall>k' < k. \<not> is_real_post_button w (Suc i + k') (btns ! k')))"
      (is "?L = ?R")
    proof
      assume ?L
      then obtain k where k: "k < length (btn # btns)" "j = i + k"
        "is_real_post_button w (i + k) ((btn # btns) ! k)"
        "\<forall>k' < k. \<not> is_real_post_button w (i + k') ((btn # btns) ! k')"
        by blast
      from k(3) False have "k \<noteq> 0" by (cases k) auto
      then obtain m where m: "k = Suc m" by (cases k) auto
      have "\<forall>k' < m. \<not> is_real_post_button w (Suc i + k') (btns ! k')"
      proof (intro allI impI)
        fix k' assume "k' < m"
        then have "Suc k' < k" using m by simp
        with k(4) have "\<not> is_real_post_button w (i + Suc k') ((btn # btns) ! Suc k')" by blast
        then show "\<not> is_real_post_button w (Suc i + k') (btns ! k')" by simp
      qed
      with k m show ?R by (intro exI [of _ m]) simp
    next
      assume ?R
      then obtain m where m: "m < length btns" "j = Suc i + m"
        "is_real_post_button w (Suc i + m) (btns ! m)"
        "\<forall>k' < m. \<not> is_real_post_button w (Suc i + k') (btns ! k')"
        by blast
      have "\<forall>k' < Suc m. \<not> is_real_post_button w (i + k') ((btn # btns) ! k')"
      proof (intro allI impI)
        fix k' assume lt: "k' < Suc m"
        show "\<not> is_real_post_button w (i + k') ((btn # btns) ! k')"
        proof (cases k')
          case 0
          with False show ?thesis by simp
        next
          case (Suc n)
          with lt have "n < m" by simp
          with m(4) have "\<not> is_real_post_button w (Suc i + n) (btns ! n)" by blast
          with Suc show ?thesis by simp
        qed
      qed
      with m show ?L by (intro exI [of _ "Suc m"]) simp
    qed
    with False Cons.IH [of "Suc i"] show ?thesis
      by (simp add: find_from_step del: find_from.simps(2))
  qed
qed

text \<open>
  C5. Given the list of candidates (the scroll, the pause and the locator query did not
  throw), \<open>findPostButton\<close> returns without error. It returns the candidate \<open>j\<close> exactly
  when \<open>j\<close> is the first candidate that is the real button: its text (what \<^verbatim>\<open>textContent()\<close>
  answers), trimmed as \<^verbatim>\<open>String.prototype.trim\<close> trims, is exactly \<^verbatim>\<open>Post\<close> and its
  bounding box is wider than 100. It returns null exactly when no candidate is. So a
  candidate it returns has the exact text and a box wider than 100, however many
  candidates contain the text.
\<close>

theorem findPostButton_first_exact_wide:
  assumes "throws w EvaluateScrollToBottom = None" and "throws w (ScrollWait 500) = None"
    and "throws w LocatorAll = None"
  shows "(\<exists>r. snd (findPostButton w) = Inr r)
    \<and> (\<forall>j. (snd (findPostButton w) = Inr (Some j))
           = (j < length (post_buttons w)
              \<and> is_real_post_button w j (post_buttons w ! j)
              \<and> (\<forall>k < j. \<not> is_real_post_button w k (post_buttons w ! k))))
    \<and> ((snd (findPostButton w) = Inr None)
         = (\<forall>k < length (post_buttons w). \<not> is_real_post_button w k (post_buttons w ! k)))
    \<and> (\<forall>j. snd (findPostButton w) = Inr (Some j) \<longrightarrow>
          trim (case textContent (post_buttons w ! j) of None \<Rightarrow> [] | Some t \<Rightarrow> t) = ''Post''
          \<and> (\<exists>bb. boundingBox (post_buttons w ! j) = Some bb \<and> width bb > 100))"
proof -
  have eq: "snd (findPostButton w) = snd (find_from w 0 (post_buttons w))"
    using assms by (simp add: findPostButton_def await_def andThen_Inr split: prod.splits)
  have some: "\<And>j. (snd (findPostButton w) = Inr (Some j))
           = (j < length (post_buttons w)
              \<and> is_real_post_button w j (post_buttons w ! j)
              \<and> (\<forall>k < j. \<not> is_real_post_button w k (post_buttons w ! k)))"
    using find_from_Some [of w 0 "post_buttons w"] by (auto simp: eq)
  have shape: "\<And>j. is_real_post_button w j (post_buttons w ! j) \<Longrightarrow>
          trim (case textContent (post_buttons w ! j) of None \<Rightarrow> [] | Some t \<Rightarrow> t) = ''Post''
          \<and> (\<exists>bb. boundingBox (post_buttons w ! j) = Some bb \<and> width bb > 100)"
    by (auto simp: is_real_post_button_def split: option.splits)
  show ?thesis
    using find_from_returns [of w 0 "post_buttons w"] find_from_None [of w 0 "post_buttons w"]
      some shape
    by (simp add: eq)
qed

lemma studio_buttons:
  "\<not> is_real_post_button studio_world 0 (post_buttons studio_world ! 0)"
  "\<not> is_real_post_button studio_world 1 (post_buttons studio_world ! 1)"
  "is_real_post_button studio_world 2 (post_buttons studio_world ! 2)"
  by (simp_all add: is_real_post_button_def studio_fields trim_examples)

text \<open>
  In the studio the first candidate has the exact text but an icon's width, the second
  is wide but reads \<^verbatim>\<open>Post now\<close>, the third is the real button (a no-break space, the
  word and a space); without the third the result is null.
\<close>

theorem findPostButton_first_exact_wide_witness:
  "snd (findPostButton studio_world) = Inr (Some 2)
   \<and> snd (findPostButton no_real_button_world) = Inr None"
proof -
  have pre: "throws studio_world EvaluateScrollToBottom = None"
    "throws studio_world (ScrollWait 500) = None" "throws studio_world LocatorAll = None"
    "throws no_real_button_world EvaluateScrollToBottom = None"
    "throws no_real_button_world (ScrollWait 500) = None"
    "throws no_real_button_world LocatorAll = None"
    by (simp_all add: studio_fields no_real_button_world_def)
  have below: "\<forall>k < 2. \<not> is_real_post_button studio_world k (post_buttons studio_world ! k)"
    using studio_buttons by (simp add: less_Suc_eq numeral_2_eq_2)
  have len: "(2::nat) < length (post_buttons studio_world)"
    by (simp add: studio_fields)
  have none: "\<forall>k < length (post_buttons no_real_button_world).
      \<not> is_real_post_button no_real_button_world k (post_buttons no_real_button_world ! k)"
    by (simp add: no_real_button_world_def studio_fields is_real_post_button_def
        trim_examples less_Suc_eq numeral_2_eq_2)
  show ?thesis
    using findPostButton_first_exact_wide [OF pre(1-3)]
      findPostButton_first_exact_wide [OF pre(4-6)] below len none studio_buttons(3)
    by blast
qed

lemma finds_third_button:
  assumes "\<And>c. throws w c = None" and "post_buttons w = post_buttons studio_world"
  shows "findPostButton w
     = ([Call EvaluateScrollToBottom, Call (ScrollWait 500), Call LocatorAll,
         Call (TextContent 0), Call (BoundingBox 0), Call (TextContent 1), Call (BoundingBox 1),
         Call (TextContent 2), Call (BoundingBox 2)], Inr (Some 2))"
  by (simp add: findPostButton_def inspect_def await_value_def await_def assms studio_fields
        andThen_Inr ret_def trim_examples numeral_2_eq_2)

text \<open>
  Two candidates, both wide: the first reads \<^verbatim>\<open>Post\<close> between two no-break spaces, the
  second reads \<^verbatim>\<open>Post\<close>. The first is found.
\<close>

lemma padded_button_is_found:
  "snd (findPostButton (studio_world\<lparr>post_buttons :=
       [\<lparr>textContent = Some (utf8 0xA0 @ ''Post'' @ utf8 0xA0),
         boundingBox = Some \<lparr>width = 120, height = 40\<rparr>\<rparr>,
        \<lparr>textContent = Some ''Post'', boundingBox = Some \<lparr>width = 130, height = 40\<rparr>\<rparr>]\<rparr>))
     = Inr (Some 0)"
proof -
  have "trim (utf8 0xA0 @ ''Post'' @ utf8 0xA0) = ''Post''"
    by (simp add: trim_def white_space_bytes_rev white_space_bytes utf8_def char_of_eq_iff)
  then show ?thesis
    by (simp add: findPostButton_def inspect_def await_value_def await_def studio_fields
          andThen_Inr ret_def)
qed

subsection \<open>Dialogs\<close>

lemma tryDismiss_True: "(snd (tryDismiss u w b) = Inr True) = dismissable w b"
  by (auto simp: tryDismiss_def dismissable_def await_value_def await_def andThen_def ret_def
        debug_log_def emit_def split: option.splits)

lemma tryDismiss_done:
  "dismissable w b \<Longrightarrow>
   calls (fst (tryDismiss u w b)) = [ModalIsVisible b 1000, ModalClick b, ModalWait b 500]"
  by (auto simp: tryDismiss_def dismissable_def await_value_def await_def andThen_def ret_def
        debug_log_def emit_def calls_def split: option.splits)

lemma tryDismiss_not_visible:
  "throws w (ModalIsVisible b 1000) = None \<Longrightarrow> \<not> modal_visible w b \<Longrightarrow>
   fst (tryDismiss u w b) = [Call (ModalIsVisible b 1000)]"
  by (simp add: tryDismiss_def await_value_def await_def andThen_def ret_def)

lemma dismiss_from_step:
  "dismiss_from u w (b # bs) =
     (if dismissable w b then (fst (tryDismiss u w b), Inr ())
      else (fst (tryDismiss u w b) @ fst (dismiss_from u w bs), snd (dismiss_from u w bs)))"
  using tryDismiss_True [of u w b]
  by (cases "tryDismiss u w b") (auto split: sum.splits bool.splits prod.splits)

lemma dismiss_from_returns: "snd (dismiss_from u w bs) = Inr ()"
  by (induction bs) (auto simp: dismiss_from_step ret_def simp del: dismiss_from.simps(2))

lemma dismiss_from_all:
  "\<forall>x \<in> set bs. \<not> dismissable w x \<Longrightarrow>
   fst (dismiss_from u w bs) = concat (map (\<lambda>x. fst (tryDismiss u w x)) bs)"
  by (induction bs) (auto simp: dismiss_from_step ret_def simp del: dismiss_from.simps(2))

lemma dismiss_from_stop:
  "\<forall>x \<in> set pre. \<not> dismissable w x \<Longrightarrow> dismissable w b \<Longrightarrow>
   fst (dismiss_from u w (pre @ b # post))
     = concat (map (\<lambda>x. fst (tryDismiss u w x)) pre) @ fst (tryDismiss u w b)"
  by (induction pre) (auto simp: dismiss_from_step simp del: dismiss_from.simps(2))

text \<open>
  C9, as the code has it. \<open>dismissModals\<close> returns no value, whether it dismissed a dialog
  or not, and never throws. It goes through the labels \<^verbatim>\<open>Cancel\<close>, \<^verbatim>\<open>Not now\<close>, \<^verbatim>\<open>Close\<close>,
  \<^verbatim>\<open>Skip\<close>, \<^verbatim>\<open>Got it\<close> in this order. At the first label that can be dismissed (its button
  is visible, and the check, the click and the pause resolve) it checks, clicks, pauses
  and stops: no later label is touched. A label before it costs the calls of its own
  \<^verbatim>\<open>try\<close> body, a single visibility check when its button does not show. When no label
  can be dismissed, all five are gone through.
\<close>

theorem dismissModals_first_dismissable:
  "snd (dismissModals u w) = Inr ()
   \<and> modalButtons = [''Cancel'', ''Not now'', ''Close'', ''Skip'', ''Got it'']
   \<and> (modalButtons = pre @ b # post \<and> (\<forall>x \<in> set pre. \<not> dismissable w x) \<and> dismissable w b \<longrightarrow>
        fst (dismissModals u w)
          = concat (map (\<lambda>x. fst (tryDismiss u w x)) pre) @ fst (tryDismiss u w b)
        \<and> calls (fst (tryDismiss u w b)) = [ModalIsVisible b 1000, ModalClick b, ModalWait b 500])
   \<and> ((\<forall>x \<in> set modalButtons. \<not> dismissable w x) \<longrightarrow>
        fst (dismissModals u w) = concat (map (\<lambda>x. fst (tryDismiss u w x)) modalButtons))
   \<and> (throws w (ModalIsVisible b 1000) = None \<and> \<not> modal_visible w b \<longrightarrow>
        fst (tryDismiss u w b) = [Call (ModalIsVisible b 1000)])"
proof -
  have a: "snd (dismissModals u w) = Inr ()"
    by (simp add: dismissModals_def dismiss_from_returns)
  have b: "modalButtons = [''Cancel'', ''Not now'', ''Close'', ''Skip'', ''Got it'']"
    by (simp add: modalButtons_def)
  have c: "modalButtons = pre @ b # post \<and> (\<forall>x \<in> set pre. \<not> dismissable w x) \<and> dismissable w b \<longrightarrow>
        fst (dismissModals u w)
          = concat (map (\<lambda>x. fst (tryDismiss u w x)) pre) @ fst (tryDismiss u w b)
        \<and> calls (fst (tryDismiss u w b)) = [ModalIsVisible b 1000, ModalClick b, ModalWait b 500]"
    using dismiss_from_stop [of pre w b u post] tryDismiss_done [of w b u]
    by (auto simp: dismissModals_def)
  have d: "(\<forall>x \<in> set modalButtons. \<not> dismissable w x) \<longrightarrow>
        fst (dismissModals u w) = concat (map (\<lambda>x. fst (tryDismiss u w x)) modalButtons)"
    using dismiss_from_all [of modalButtons w u] by (simp add: dismissModals_def)
  have e: "throws w (ModalIsVisible b 1000) = None \<and> \<not> modal_visible w b \<longrightarrow>
        fst (tryDismiss u w b) = [Call (ModalIsVisible b 1000)]"
    using tryDismiss_not_visible [of w b u] by simp
  show ?thesis using a b c d e by blast
qed

text \<open>
  With \<^verbatim>\<open>Cancel\<close> showing, it is clicked and nothing else is checked. When the click on
  \<^verbatim>\<open>Cancel\<close> throws, the scan goes on and clicks \<^verbatim>\<open>Close\<close>. With nothing showing, the five
  labels are checked.
\<close>

theorem dismissModals_first_dismissable_witness:
  "fst (dismissModals env_uploader cancel_world)
     = [Call (ModalIsVisible ''Cancel'' 1000), Call (ModalClick ''Cancel''),
        Call (ModalWait ''Cancel'' 500)]
   \<and> fst (dismissModals env_uploader stubborn_world)
     = [Call (ModalIsVisible ''Cancel'' 1000), Call (ModalClick ''Cancel''),
        Call (ModalIsVisible ''Not now'' 1000),
        Call (ModalIsVisible ''Close'' 1000), Call (ModalClick ''Close''),
        Call (ModalWait ''Close'' 500)]
   \<and> fst (dismissModals env_uploader studio_world)
     = [Call (ModalIsVisible ''Cancel'' 1000), Call (ModalIsVisible ''Not now'' 1000),
        Call (ModalIsVisible ''Close'' 1000), Call (ModalIsVisible ''Skip'' 1000),
        Call (ModalIsVisible ''Got it'' 1000)]"
proof -
  have split1: "modalButtons = [] @ ''Cancel'' # [''Not now'', ''Close'', ''Skip'', ''Got it'']"
    and split2: "modalButtons = [''Cancel'', ''Not now''] @ ''Close'' # [''Skip'', ''Got it'']"
    by (simp_all add: modalButtons_def)
  have d1: "dismissable cancel_world ''Cancel''"
    by (simp add: dismissable_def cancel_fields)
  have d2: "\<forall>x \<in> set [''Cancel'', ''Not now'']. \<not> dismissable stubborn_world x"
    "dismissable stubborn_world ''Close''"
    by (simp_all add: dismissable_def stubborn_fields)
  have d3: "\<forall>x \<in> set modalButtons. \<not> dismissable studio_world x"
    by (simp add: dismissable_def studio_fields)
  have t1: "fst (tryDismiss env_uploader cancel_world ''Cancel'')
     = [Call (ModalIsVisible ''Cancel'' 1000), Call (ModalClick ''Cancel''),
        Call (ModalWait ''Cancel'' 500)]"
    by (simp add: tryDismiss_def run_defs andThen_Inr cancel_fields env_uploader_fields)
  have t2: "fst (tryDismiss env_uploader stubborn_world ''Cancel'')
       = [Call (ModalIsVisible ''Cancel'' 1000), Call (ModalClick ''Cancel'')]"
    "fst (tryDismiss env_uploader stubborn_world ''Not now'') = [Call (ModalIsVisible ''Not now'' 1000)]"
    "fst (tryDismiss env_uploader stubborn_world ''Close'')
       = [Call (ModalIsVisible ''Close'' 1000), Call (ModalClick ''Close''),
          Call (ModalWait ''Close'' 500)]"
    by (simp_all add: tryDismiss_def run_defs andThen_Inr andThen_Inl stubborn_fields env_uploader_fields)
  have t3: "\<And>b. fst (tryDismiss env_uploader studio_world b) = [Call (ModalIsVisible b 1000)]"
    by (simp add: tryDismiss_def run_defs andThen_Inr studio_fields)
  have r1: "fst (dismissModals env_uploader cancel_world)
          = concat (map (\<lambda>x. fst (tryDismiss env_uploader cancel_world x)) [])
            @ fst (tryDismiss env_uploader cancel_world ''Cancel'')"
    using dismissModals_first_dismissable [of env_uploader cancel_world "[]" "''Cancel''"
        "[''Not now'', ''Close'', ''Skip'', ''Got it'']"] split1 d1
    by simp
  have r2: "fst (dismissModals env_uploader stubborn_world)
          = concat (map (\<lambda>x. fst (tryDismiss env_uploader stubborn_world x)) [''Cancel'', ''Not now''])
            @ fst (tryDismiss env_uploader stubborn_world ''Close'')"
    using dismissModals_first_dismissable [of env_uploader stubborn_world "[''Cancel'', ''Not now'']"
        "''Close''" "[''Skip'', ''Got it'']"] split2 d2
    by blast
  have r3: "fst (dismissModals env_uploader studio_world)
          = concat (map (\<lambda>x. fst (tryDismiss env_uploader studio_world x)) modalButtons)"
    using dismissModals_first_dismissable [of env_uploader studio_world] d3 by blast
  show ?thesis
    by (simp add: r1 r2 r3 t1 t2 t3 modalButtons_def)
qed

text \<open>
  The specification has \<open>dismissModals\<close> return true after a click and false otherwise. In the
  world where \<^verbatim>\<open>Cancel\<close> is clicked and in the world where nothing shows it returns the
  same: no value.
\<close>

theorem dismissModals_returns_no_boolean_counterexample:
  "fst (dismissModals env_uploader cancel_world)
     = [Call (ModalIsVisible ''Cancel'' 1000), Call (ModalClick ''Cancel''),
        Call (ModalWait ''Cancel'' 500)]
   \<and> fst (dismissModals env_uploader studio_world)
     = [Call (ModalIsVisible ''Cancel'' 1000), Call (ModalIsVisible ''Not now'' 1000),
        Call (ModalIsVisible ''Close'' 1000), Call (ModalIsVisible ''Skip'' 1000),
        Call (ModalIsVisible ''Got it'' 1000)]
   \<and> snd (dismissModals env_uploader cancel_world) = Inr ()
   \<and> snd (dismissModals env_uploader studio_world) = Inr ()
   \<and> snd (dismissModals env_uploader cancel_world) = snd (dismissModals env_uploader studio_world)"
  by (simp add: dismissModals_def modalButtons_def tryDismiss_def run_defs andThen_Inr
        andThen_Inl cancel_fields studio_fields env_uploader_fields)

subsection \<open>Polling\<close>

lemma exit_check:
  "await_value w (ExitModalIsVisible i 500) (exit_modal_visible w i)
     = ([Call (ExitModalIsVisible i 500)],
        case throws w (ExitModalIsVisible i 500) of
          None \<Rightarrow> Inr (exit_modal_visible w i)
        | Some s \<Rightarrow> Inl (PlatformError s))"
  by (simp add: await_value_def await_def andThen_def ret_def split: option.splits)

lemma poll_from_tick:
  assumes "throws w (PollWait i 5000) = None"
  shows "poll_from w T cb (Suc n) i =
     (if success_url (poll_url w i)
      then ([Call (PollWait i 5000)] @ (if cb then [Progress (tick_progress T i), Progress 100] else []),
            Inr True)
      else if exit_seen w i
      then ([Call (PollWait i 5000)] @ (if cb then [Progress (tick_progress T i)] else [])
              @ [Call (ExitModalIsVisible i 500),
                 ConsoleError ''Exit modal appeared - upload may have failed''],
            Inr False)
      else ([Call (PollWait i 5000)] @ (if cb then [Progress (tick_progress T i)] else [])
              @ [Call (ExitModalIsVisible i 500)] @ fst (poll_from w T cb n (Suc i)),
            snd (poll_from w T cb n (Suc i))))"
  using assms
  by (cases "poll_from w T cb n (Suc i)")
     (auto simp: exit_check exit_seen_def tick_progress_def await_def report_def emit_def ret_def
        andThen_Inr split: option.splits bool.splits)

lemma poll_from_pos:
  assumes "throws w (PollWait i 5000) = None" and "0 < n"
  shows "poll_from w T cb n i =
     (if success_url (poll_url w i)
      then ([Call (PollWait i 5000)] @ (if cb then [Progress (tick_progress T i), Progress 100] else []),
            Inr True)
      else if exit_seen w i
      then ([Call (PollWait i 5000)] @ (if cb then [Progress (tick_progress T i)] else [])
              @ [Call (ExitModalIsVisible i 500),
                 ConsoleError ''Exit modal appeared - upload may have failed''],
            Inr False)
      else ([Call (PollWait i 5000)] @ (if cb then [Progress (tick_progress T i)] else [])
              @ [Call (ExitModalIsVisible i 500)] @ fst (poll_from w T cb (n - 1) (Suc i)),
            snd (poll_from w T cb (n - 1) (Suc i))))"
  using assms poll_from_tick [of w i T cb "n - 1"] by (cases n) simp_all

lemma poll_from_exit:
  "k < n \<Longrightarrow> \<forall>j \<le> k. throws w (PollWait (i + j) 5000) = None \<Longrightarrow>
   \<forall>j \<le> k. \<not> success_url (poll_url w (i + j)) \<Longrightarrow>
   \<forall>j < k. \<not> exit_seen w (i + j) \<Longrightarrow> exit_seen w (i + k) \<Longrightarrow>
   snd (poll_from w T cb n i) = Inr False
   \<and> poll_ticks (fst (poll_from w T cb n i)) = [i ..< i + Suc k]"
proof (induction k arbitrary: n i)
  case 0
  then obtain n' where n: "n = Suc n'" by (cases n) auto
  from 0 show ?case
    by (simp add: n poll_from_tick poll_ticks_def del: poll_from.simps(2))
next
  case (Suc k)
  then obtain n' where n: "n = Suc n'" by (cases n) auto
  have w0: "throws w (PollWait i 5000) = None" using Suc.prems(2) by force
  have s0: "\<not> success_url (poll_url w i)" using Suc.prems(3) by force
  have e0: "\<not> exit_seen w i" using Suc.prems(4) by force
  have "k < n'" using Suc.prems(1) n by simp
  moreover have "\<forall>j \<le> k. throws w (PollWait (Suc i + j) 5000) = None"
    using Suc.prems(2) by (metis Suc_le_mono add_Suc_shift)
  moreover have "\<forall>j \<le> k. \<not> success_url (poll_url w (Suc i + j))"
    using Suc.prems(3) by (metis Suc_le_mono add_Suc_shift)
  moreover have "\<forall>j < k. \<not> exit_seen w (Suc i + j)"
    using Suc.prems(4) by (metis Suc_less_eq add_Suc_shift)
  moreover have "exit_seen w (Suc i + k)"
    using Suc.prems(5) by simp
  ultimately have IH: "snd (poll_from w T cb n' (Suc i)) = Inr False
      \<and> poll_ticks (fst (poll_from w T cb n' (Suc i))) = [Suc i ..< Suc i + Suc k]"
    by (rule Suc.IH)
  have "[i ..< i + Suc (Suc k)] = i # [Suc i ..< Suc i + Suc k]"
    by (simp add: upt_conv_Cons del: upt_Suc)
  with IH w0 s0 e0 show ?case
    by (simp add: n poll_from_tick poll_ticks_def del: poll_from.simps(2) upt_Suc)
qed


lemma studio_polling:
  "waitForUploadComplete studio_world 60 cb
     = ([Call (PollWait 0 5000)] @ (if cb then [Progress 8] else [])
        @ [Call (ExitModalIsVisible 0 500), Call (PollWait 1 5000)]
        @ (if cb then [Progress 17, Progress 100] else []), Inr True)"
  by (simp add: waitForUploadComplete_def poll_from_pos studio_fields exit_seen_def
        upload_page_is_no_success_page content_page_is_success_page tick_progress_def
        Math_round_def)



lemma tick_progress_le: "tick_progress T i \<le> 95"
proof -
  have "min 95 ((real (i + 1) * 5 * 100) / real_of_int T) + 1 / 2 \<le> 95 + 1 / 2"
    by simp
  then have "\<lfloor>min 95 ((real (i + 1) * 5 * 100) / real_of_int T) + 1 / 2\<rfloor> \<le> \<lfloor>(95::real) + 1 / 2\<rfloor>"
    by (rule floor_mono)
  then show ?thesis by (simp add: tick_progress_def Math_round_def)
qed

lemma tick_progress_mono:
  assumes "0 < T" and "i \<le> j"
  shows "tick_progress T i \<le> tick_progress T j"
proof -
  have "(real (i + 1) * 5 * 100) / real_of_int T \<le> (real (j + 1) * 5 * 100) / real_of_int T"
    using assms by (simp add: divide_right_mono)
  then have "min 95 ((real (i + 1) * 5 * 100) / real_of_int T) + 1 / 2
      \<le> min 95 ((real (j + 1) * 5 * 100) / real_of_int T) + 1 / 2"
    by (simp add: min.coboundedI2)
  then show ?thesis
    unfolding tick_progress_def Math_round_def by (rule floor_mono)
qed

lemma tick_progress_nonneg:
  assumes "0 < T"
  shows "0 \<le> tick_progress T i"
proof -
  have "0 \<le> (real (i + 1) * 5 * 100) / real_of_int T"
    using assms by simp
  then have "0 \<le> min 95 ((real (i + 1) * 5 * 100) / real_of_int T) + 1 / 2"
    by simp
  then show ?thesis
    unfolding tick_progress_def Math_round_def by simp
qed

lemma poll_from_progress:
  "\<exists>m \<le> n. progress_values (fst (poll_from w T True n i))
      = map (tick_progress T) [i ..< i + m]
        @ (if snd (poll_from w T True n i) = Inr True then [100] else [])"
proof (induction n arbitrary: i)
  case 0
  then show ?case by (simp add: ret_def progress_values_simps)
next
  case (Suc n)
  show ?case
  proof (cases "throws w (PollWait i 5000)")
    case (Some s)
    then have "poll_from w T True (Suc n) i = ([Call (PollWait i 5000)], Inl (PlatformError s))"
      by (simp add: await_def andThen_Inl)
    then show ?thesis by (intro exI [of _ 0]) (simp add: progress_values_simps)
  next
    case None
    note tick = poll_from_tick [OF None, of T True n]
    consider (ok) "success_url (poll_url w i)"
      | (exit) "\<not> success_url (poll_url w i)" "exit_seen w i"
      | (go) "\<not> success_url (poll_url w i)" "\<not> exit_seen w i"
      by blast
    then show ?thesis
    proof cases
      case ok
      then show ?thesis
        by (intro exI [of _ 1]) (simp add: tick progress_values_simps del: poll_from.simps(2))
    next
      case exit
      then show ?thesis
        by (intro exI [of _ 1]) (simp add: tick progress_values_simps del: poll_from.simps(2))
    next
      case go
      from Suc.IH [of "Suc i"] obtain m where m: "m \<le> n"
        "progress_values (fst (poll_from w T True n (Suc i)))
          = map (tick_progress T) [Suc i ..< Suc i + m]
            @ (if snd (poll_from w T True n (Suc i)) = Inr True then [100] else [])"
        by blast
      have "[i ..< i + Suc m] = i # [Suc i ..< Suc i + m]"
        by (simp add: upt_conv_Cons del: upt_Suc)
      with go m show ?thesis
        by (intro exI [of _ "Suc m"])
           (simp add: tick progress_values_simps progress_values_append
              del: poll_from.simps(2) upt_Suc)
    qed
  qed
qed

text \<open>
  The values reported while polling are, among themselves, as C1 says: non-decreasing,
  between 0 and 95 before success, and followed by exactly 100 when polling succeeds.
  They start again from the bottom, though: at the default timeout the first is 8.
\<close>

lemma polling_progress_shape:
  assumes "0 < T"
  shows "\<exists>vs. progress_values (fst (waitForUploadComplete w T True))
            = vs @ (if snd (waitForUploadComplete w T True) = Inr True then [100] else [])
          \<and> sorted vs \<and> (\<forall>v \<in> set vs. 0 \<le> v \<and> v \<le> 95)"
proof -
  from poll_from_progress [of "nat (T div 5)" w T 0] obtain m where
    m: "progress_values (fst (waitForUploadComplete w T True))
          = map (tick_progress T) [0 ..< m]
            @ (if snd (waitForUploadComplete w T True) = Inr True then [100] else [])"
    by (auto simp: waitForUploadComplete_def)
  have "sorted (map (tick_progress T) [0 ..< m])"
    using tick_progress_mono [OF assms]
    by (simp add: sorted_iff_nth_mono)
  moreover have "\<forall>v \<in> set (map (tick_progress T) [0 ..< m]). 0 \<le> v \<and> v \<le> 95"
    using tick_progress_le tick_progress_nonneg [OF assms] by auto
  ultimately show ?thesis using m by blast
qed

lemma first_tick_below_70:
  assumes "8 \<le> T"
  shows "tick_progress T 0 \<le> 63"
proof -
  have "500 / real_of_int T \<le> 500 / 8"
    using assms by (intro divide_left_mono) simp_all
  then have "min 95 ((real (0 + 1) * 5 * 100) / real_of_int T) + 1 / 2 \<le> 63"
    by simp
  then have "\<lfloor>min 95 ((real (0 + 1) * 5 * 100) / real_of_int T) + 1 / 2\<rfloor> \<le> \<lfloor>63::real\<rfloor>"
    by (rule floor_mono)
  then show ?thesis by (simp add: tick_progress_def Math_round_def)
qed

lemma polling_progress_starts_low:
  assumes "throws w (PollWait 0 5000) = None" and "8 \<le> T"
  shows "\<exists>v vs. progress_values (fst (waitForUploadComplete w T True)) = v # vs \<and> v \<le> 63"
proof -
  have n: "0 < nat (T div 5)" using assms(2) by simp
  show ?thesis
    using first_tick_below_70 [OF assms(2)]
    by (simp add: waitForUploadComplete_def poll_from_pos [OF assms(1) n] progress_values_simps
          progress_values_append)
qed

subsection \<open>An upload up to its polling loop\<close>

text \<open>The helpers report no progress and wait for no polling tick.\<close>

lemma tryDismiss_silent:
  "poll_ticks (fst (tryDismiss u w b)) = [] \<and> progress_values (fst (tryDismiss u w b)) = []"
  by (auto simp: tryDismiss_def await_value_def await_def andThen_def ret_def debug_log_def emit_def
        poll_ticks_simps progress_values_simps split: option.splits)

lemma dismiss_from_silent:
  "poll_ticks (fst (dismiss_from u w bs)) = [] \<and> progress_values (fst (dismiss_from u w bs)) = []"
  using tryDismiss_silent
  by (induction bs)
     (auto simp: dismiss_from_step ret_def poll_ticks_simps progress_values_simps
        poll_ticks_append progress_values_append simp del: dismiss_from.simps(2))

lemma inspect_silent:
  "poll_ticks (fst (inspect w i btn)) = [] \<and> progress_values (fst (inspect w i btn)) = []"
  by (auto simp: inspect_def await_value_def await_def andThen_def ret_def
        poll_ticks_simps progress_values_simps split: option.splits)

lemma find_from_silent:
  "poll_ticks (fst (find_from w i btns)) = [] \<and> progress_values (fst (find_from w i btns)) = []"
  using inspect_silent
  by (induction btns arbitrary: i)
     (auto simp: find_from_step ret_def poll_ticks_simps progress_values_simps
        poll_ticks_append progress_values_append simp del: find_from.simps(2))

lemma findPostButton_silent:
  "poll_ticks (fst (findPostButton w)) = [] \<and> progress_values (fst (findPostButton w)) = []"
  using find_from_silent [of w 0 "post_buttons w"]
  by (auto simp: findPostButton_def await_def fst_andThen poll_ticks_simps progress_values_simps
        poll_ticks_append progress_values_append split: option.splits sum.splits)

lemma dismissModals_silent:
  "poll_ticks (fst (dismissModals u w)) = []" "progress_values (fst (dismissModals u w)) = []"
  "snd (dismissModals u w) = Inr ()"
  using dismiss_from_silent [of u w modalButtons] dismiss_from_returns [of u w modalButtons]
  by (simp_all add: dismissModals_def)

lemma upload_until_polling:
  assumes v: "validateVideo w vid = Inr p"
    and c: "cookies u = Some cs"
    and calm: "\<forall>c. throws w c \<noteq> None \<longrightarrow> (\<exists>i t. c = ExitModalIsVisible i t)"
    and url: "\<not> str_includes (toLowerCase (page_url w)) ''login''"
    and btn: "snd (findPostButton w) = Inr (Some j)"
    and poll: "snd (waitForUploadComplete w (timeout u div 1000) (onProgress opts)) = Inr ok"
  shows "snd (upload u w vid cap opts) =
           (if ok then Inr \<lparr>success = True, videoId = None, videoUrl = None,
                           status = ''uploaded'', error = None\<rparr>
            else Inl (UploadFailedError ''Upload did not complete successfully''
                        (if debug u then Some ''debug_upload_failed.png'' else None)))
         \<and> poll_ticks (fst (upload u w vid cap opts))
             = poll_ticks (fst (waitForUploadComplete w (timeout u div 1000) (onProgress opts)))
         \<and> progress_values (fst (upload u w vid cap opts))
             = (if onProgress opts then [0, 10, 40, 60, 70] else [])
               @ progress_values (fst (waitForUploadComplete w (timeout u div 1000) (onProgress opts)))"
proof -
  have aw: "\<And>c. (\<forall>i t. c \<noteq> ExitModalIsVisible i t) \<Longrightarrow> await w c = ([Call c], Inr ())"
    using calm by (auto simp: await_def split: option.splits)
  obtain es where w: "waitForUploadComplete w (timeout u div 1000) (onProgress opts) = (es, Inr ok)"
    using poll by (cases "waitForUploadComplete w (timeout u div 1000) (onProgress opts)") auto
  obtain fs where f: "findPostButton w = (fs, Inr (Some j))"
    using btn by (cases "findPostButton w") auto
  obtain ds where d: "dismissModals u w = (ds, Inr ())"
    using dismissModals_silent(3) [of u w] by (cases "dismissModals u w") auto
  have fs: "poll_ticks fs = []" "progress_values fs = []"
    using findPostButton_silent [of w] f by simp_all
  have ds: "poll_ticks ds = []" "progress_values ds = []"
    using dismissModals_silent(1,2) [of u w] d by simp_all
  show ?thesis
    by (simp add: upload_def v upload_try_def setupContext_def c aw andThen_Inr andThen_Inl url
        w f d fs ds report_def debug_log_def emit_def ret_def throw_def try_catch_def
        try_finally_def upload_catch_def
        poll_ticks_simps progress_values_simps poll_ticks_append progress_values_append)
qed

text \<open>
  C1 at the default timeout of 60000 ms. The upload succeeds at the second polling tick;
  the callback receives 0, 10, 40, 60, 70 and then 8, 17, 100: the first polling value
  is below the 70 reported before it.
\<close>

theorem upload_progress_falls_back:
  "progress_values (fst (upload env_uploader studio_world ''clip.mp4'' ''hello''
       \<lparr>visibility = None, onProgress = True\<rparr>)) = [0, 10, 40, 60, 70, 8, 17, 100]
   \<and> snd (upload env_uploader studio_world ''clip.mp4'' ''hello''
       \<lparr>visibility = None, onProgress = True\<rparr>)
       = Inr \<lparr>success = True, videoId = None, videoUrl = None, status = ''uploaded'', error = None\<rparr>"
proof -
  have "snd (waitForUploadComplete studio_world (timeout env_uploader div 1000)
          (onProgress \<lparr>visibility = None, onProgress = True\<rparr>)) = Inr True"
    by (simp add: env_uploader_fields studio_polling)
  from upload_until_polling [OF validate_clip env_uploader_fields(1) _ _ _ this, of 2 "''hello''"]
  show ?thesis
    by (simp add: studio_fields finds_third_button upload_page_is_no_login_page
          env_uploader_fields studio_polling progress_values_simps)
qed

text \<open>
  The same for every upload that reaches its polling loop with a callback and a timeout
  of 8000 ms or more: the first polling value is at most 63, after the 70.
\<close>

lemma upload_progress_not_monotone:
  assumes "validateVideo w vid = Inr p" and "cookies u = Some cs"
    and "\<forall>c. throws w c \<noteq> None \<longrightarrow> (\<exists>i t. c = ExitModalIsVisible i t)"
    and "\<not> str_includes (toLowerCase (page_url w)) ''login''"
    and "snd (findPostButton w) = Inr (Some j)"
    and "8000 \<le> timeout u"
  shows "\<not> sorted (progress_values (fst (upload u w vid cap \<lparr>visibility = vis, onProgress = True\<rparr>)))"
proof -
  let ?T = "timeout u div 1000"
  have T: "8 \<le> ?T" using assms(6) by simp
  have wait: "throws w (PollWait i 5000) = None" for i
  proof (rule ccontr)
    assume "throws w (PollWait i 5000) \<noteq> None"
    with assms(3) obtain i' t where "PollWait i 5000 = ExitModalIsVisible i' t" by blast
    then show False by simp
  qed
  have "\<exists>ok. snd (poll_from w ?T True n i) = Inr ok" for n i
  proof (induction n arbitrary: i)
    case 0
    then show ?case by (auto simp: ret_def)
  next
    case (Suc n)
    then show ?case
      by (auto simp: poll_from_tick [OF wait] simp del: poll_from.simps(2))
  qed
  then obtain ok where ok: "snd (waitForUploadComplete w ?T True) = Inr ok"
    unfolding waitForUploadComplete_def by blast
  obtain v vs where v: "progress_values (fst (waitForUploadComplete w ?T True)) = v # vs" "v \<le> 63"
    using polling_progress_starts_low [OF wait T] by blast
  have "progress_values (fst (upload u w vid cap \<lparr>visibility = vis, onProgress = True\<rparr>))
      = [0, 10, 40, 60, 70] @ v # vs"
    using upload_until_polling [OF assms(1-5), of "\<lparr>visibility = vis, onProgress = True\<rparr>" ok cap] ok v(1)
    by simp
  with v(2) show ?thesis by simp
qed

subsection \<open>Events of the polling loop\<close>














subsection \<open>The way of an upload to its polling loop\<close>




























subsection \<open>Uploads without a session\<close>

lemma no_session_no_cookies:
  "opt_session uo = None \<Longrightarrow> cookies (TikTokUploader pf None uo) = None"
  by (simp add: TikTokUploader_def)

text \<open>
  A session file that starts with a byte order mark and ends with a line feed: the
  session is the text between them.
\<close>

lemma getSession_trims_file:
  "getSession (bare_host\<lparr>file_text := (\<lambda>p. if p = ''/home/user/.tiktok_session''
                                              then Some (utf8 0xFEFF @ ''abc123'' @ utf8 0x0A)
                                              else None)\<rparr>)
       None ''TIKTOK_SESSION'' None
     = Inr ''abc123''"
proof -
  have "trim (utf8 0xFEFF @ ''abc123'' @ utf8 0x0A) = ''abc123''"
    by (simp add: trim_def white_space_bytes_rev white_space_bytes utf8_def char_of_eq_iff)
  then show ?thesis
    by (simp add: getSession_def bare_host_def)
qed

text \<open>
  C6, as the code has it. Suppose no session is available from any source: no parameter,
  no \<^verbatim>\<open>TIKTOK_SESSION\<close> in the environment, no session file. Then \<open>getSession\<close> fails with
  \<open>LoginRequiredError\<close>, and it calls no browser. An uploader constructed without a
  session has no cookies (it reads no session file), and its upload of a video that
  validates fails with \<open>LoginRequiredError\<close> too, but after the browser was launched: when
  the launch, the creation of the context and the closing resolve, the calls of the
  upload are exactly the launch, the new context and the close. No page is opened, and
  the browser is closed before the error leaves \<open>upload\<close>.
\<close>

theorem login_required_after_launch:
  assumes "env_var h ''TIKTOK_SESSION'' = None"
    and "file_text h (default_session_file h) = None"
    and "opt_session uo = None"
    and "validateVideo w vid = Inr p"
    and "throws w (ChromiumLaunch (headless (TikTokUploader pf (env_var h ''TIKTOK_SESSION'') uo))) = None"
    and "throws w (BrowserNewContext 1280 1024) = None"
    and "throws w BrowserClose = None"
  shows "getSession h None ''TIKTOK_SESSION'' None = Inl LoginRequiredError
    \<and> snd (upload (TikTokUploader pf (env_var h ''TIKTOK_SESSION'') uo) w vid cap opts)
        = Inl LoginRequiredError
    \<and> calls (fst (upload (TikTokUploader pf (env_var h ''TIKTOK_SESSION'') uo) w vid cap opts))
        = [ChromiumLaunch (headless (TikTokUploader pf (env_var h ''TIKTOK_SESSION'') uo)),
           BrowserNewContext 1280 1024, BrowserClose]"
proof -
  have g: "getSession h None ''TIKTOK_SESSION'' None = Inl LoginRequiredError"
    using assms(1,2) by (simp add: getSession_def Let_def)
  have c: "cookies (TikTokUploader pf (env_var h ''TIKTOK_SESSION'') uo) = None"
    using assms(1,3) no_session_no_cookies [of uo pf] by simp
  show ?thesis
    using assms(4-7) g c
    by (simp add: assms(1) upload_def upload_try_def setupContext_def await_def andThen_Inr andThen_Inl
          andThen_throw report_def debug_log_def emit_def ret_def throw_def try_catch_def
          try_finally_def upload_catch_def calls_simps)
qed

text \<open>The machine without any session, and the uploader without a session in the studio.\<close>

theorem login_required_after_launch_witness:
  "getSession bare_host None ''TIKTOK_SESSION'' None = Inl LoginRequiredError
   \<and> snd (upload anonymous_uploader studio_world ''clip.mp4'' ''hello''
         \<lparr>visibility = None, onProgress = True\<rparr>) = Inl LoginRequiredError
   \<and> calls (fst (upload anonymous_uploader studio_world ''clip.mp4'' ''hello''
         \<lparr>visibility = None, onProgress = True\<rparr>))
       = [ChromiumLaunch True, BrowserNewContext 1280 1024, BrowserClose]"
proof -
  have e: "env_var bare_host ''TIKTOK_SESSION'' = None"
    and f: "file_text bare_host (default_session_file bare_host) = None"
    by (simp_all add: bare_host_def)
  have u: "anonymous_uploader = TikTokUploader node (env_var bare_host ''TIKTOK_SESSION'') no_options"
    by (simp add: anonymous_uploader_def e)
  have o: "opt_session no_options = None"
    by (simp add: no_options_def)
  have l: "throws studio_world
       (ChromiumLaunch (headless (TikTokUploader node (env_var bare_host ''TIKTOK_SESSION'') no_options)))
     = None"
    by (simp add: studio_fields)
  have v: "validateVideo studio_world ''clip.mp4'' = Inr ''/videos/clip.mp4''"
    by (simp add: validate_clip)
  have "getSession bare_host None ''TIKTOK_SESSION'' None = Inl LoginRequiredError
    \<and> snd (upload (TikTokUploader node (env_var bare_host ''TIKTOK_SESSION'') no_options)
             studio_world ''clip.mp4'' ''hello'' \<lparr>visibility = None, onProgress = True\<rparr>)
        = Inl LoginRequiredError
    \<and> calls (fst (upload (TikTokUploader node (env_var bare_host ''TIKTOK_SESSION'') no_options)
             studio_world ''clip.mp4'' ''hello'' \<lparr>visibility = None, onProgress = True\<rparr>))
        = [ChromiumLaunch (headless (TikTokUploader node (env_var bare_host ''TIKTOK_SESSION'') no_options)),
           BrowserNewContext 1280 1024, BrowserClose]"
    by (rule login_required_after_launch [OF e f o v l]) (simp_all add: studio_fields)
  then show ?thesis
    by (simp add: u [symmetric] anonymous_uploader_fields)
qed

text \<open>
  The specification has the upload fail before any browser is launched. The uploader without a
  session launches the browser, creates a context, closes the browser and only then
  fails.
\<close>

theorem browser_launched_before_login_required_counterexample:
  "session anonymous_uploader = None
   \<and> fst (upload anonymous_uploader studio_world ''clip.mp4'' ''hello''
         \<lparr>visibility = None, onProgress = False\<rparr>)
       = [Call (ChromiumLaunch True), Call (BrowserNewContext 1280 1024), Call BrowserClose]
   \<and> snd (upload anonymous_uploader studio_world ''clip.mp4'' ''hello''
         \<lparr>visibility = None, onProgress = False\<rparr>) = Inl LoginRequiredError"
  by (simp add: upload_def validate_clip upload_try_def setupContext_def anonymous_uploader_fields
        await_def studio_fields andThen_Inr andThen_Inl andThen_throw report_def debug_log_def
        emit_def ret_def throw_def try_catch_def try_finally_def upload_catch_def
        anonymous_uploader_def TikTokUploader_def no_options_def)

subsection \<open>The release of the browser\<close>

text \<open>
  C2 when \<^verbatim>\<open>browser.newContext\<close> rejects. The launch stands before the \<^verbatim>\<open>try\<close> block, and so
  does the creation of the context: its error leaves \<open>upload\<close> as it is, and the browser
  that was launched is not closed.
\<close>

theorem context_failure_leaves_browser_open:
  "upload env_uploader context_fails_world ''clip.mp4'' ''hello''
     \<lparr>visibility = None, onProgress = False\<rparr>
   = ([Call (ChromiumLaunch True), Call (BrowserNewContext 1280 1024)],
      Inl (PlatformError ''Error: browser.newContext: Target page, context or browser has been closed''))"
  by (simp add: upload_def validate_clip context_fails_fields env_uploader_fields await_def
        andThen_Inr andThen_Inl report_def debug_log_def emit_def ret_def)

text \<open>The same in every world in which the launch resolves and the new context does not.\<close>

lemma context_failure_never_closes:
  assumes "validateVideo w vid = Inr p"
    and "throws w (ChromiumLaunch (headless u)) = None"
    and "throws w (BrowserNewContext 1280 1024) = Some s"
  shows "Call BrowserClose \<notin> set (fst (upload u w vid cap opts))
    \<and> snd (upload u w vid cap opts) = Inl (PlatformError s)"
  using assms
  by (simp add: upload_def await_def andThen_Inr andThen_Inl report_def debug_log_def emit_def
        ret_def)

lemma andThen_keeps_open:
  "Call BrowserClose \<notin> set (fst m) \<Longrightarrow> (\<And>v. Call BrowserClose \<notin> set (fst (f v))) \<Longrightarrow>
   Call BrowserClose \<notin> set (fst (andThen m f))"
  by (simp add: fst_andThen split: sum.splits)

lemma await_keeps_open: "c \<noteq> BrowserClose \<Longrightarrow> Call BrowserClose \<notin> set (fst (await w c))"
  by (simp add: await_def split: option.splits)

lemma leaves_keep_open:
  "Call BrowserClose \<notin> set (fst (ret v))"
  "Call BrowserClose \<notin> set (fst (throw e))"
  "Call BrowserClose \<notin> set (fst (report cb n))"
  "Call BrowserClose \<notin> set (fst (debug_log u s))"
  by (simp_all add: ret_def throw_def report_def debug_log_def emit_def)

lemma if_keeps_open:
  "(c \<Longrightarrow> Call BrowserClose \<notin> set (fst a)) \<Longrightarrow> (\<not> c \<Longrightarrow> Call BrowserClose \<notin> set (fst b)) \<Longrightarrow>
   Call BrowserClose \<notin> set (fst (if c then a else b))"
  by simp

lemma case_option_keeps_open:
  "(x = None \<Longrightarrow> Call BrowserClose \<notin> set (fst a)) \<Longrightarrow>
   (\<And>y. x = Some y \<Longrightarrow> Call BrowserClose \<notin> set (fst (b y))) \<Longrightarrow>
   Call BrowserClose \<notin> set (fst (case x of None \<Rightarrow> a | Some y \<Rightarrow> b y))"
  by (cases x) simp_all

lemma setupContext_keeps_open: "Call BrowserClose \<notin> set (fst (setupContext u w))"
  unfolding setupContext_def
  by (intro case_option_keeps_open andThen_keeps_open await_keeps_open leaves_keep_open) simp_all

lemma tryDismiss_keeps_open: "Call BrowserClose \<notin> set (fst (tryDismiss u w b))"
  unfolding tryDismiss_def await_value_def
  by (intro if_keeps_open andThen_keeps_open await_keeps_open leaves_keep_open) simp_all

lemma dismissModals_keeps_open: "Call BrowserClose \<notin> set (fst (dismissModals u w))"
proof -
  have "Call BrowserClose \<notin> set (fst (dismiss_from u w bs))" for bs
    using tryDismiss_keeps_open
    by (induction bs) (auto simp: dismiss_from_step ret_def simp del: dismiss_from.simps(2))
  then show ?thesis by (simp add: dismissModals_def)
qed

lemma inspect_keeps_open: "Call BrowserClose \<notin> set (fst (inspect w i btn))"
  unfolding inspect_def await_value_def
  by (intro andThen_keeps_open await_keeps_open leaves_keep_open) simp_all

lemma findPostButton_keeps_open: "Call BrowserClose \<notin> set (fst (findPostButton w))"
proof -
  have "Call BrowserClose \<notin> set (fst (find_from w i btns))" for i btns
    using inspect_keeps_open
    by (induction btns arbitrary: i)
       (auto simp: find_from_step ret_def simp del: find_from.simps(2))
  then show ?thesis
    unfolding findPostButton_def
    by (intro andThen_keeps_open await_keeps_open) simp_all
qed

lemma poll_from_keeps_open: "Call BrowserClose \<notin> set (fst (poll_from w T cb n i))"
proof (induction n arbitrary: i)
  case 0
  then show ?case by (simp add: ret_def)
next
  case (Suc n)
  have "Call BrowserClose \<notin> set (fst (case await_value w (ExitModalIsVisible i 500) (exit_modal_visible w i) of
          (es, Inr True) \<Rightarrow>
            (es @ [ConsoleError ''Exit modal appeared - upload may have failed''], Inr False)
        | (es, _) \<Rightarrow>
            (case poll_from w T cb n (Suc i) of (es', r) \<Rightarrow> (es @ es', r))))"
    using Suc.IH [of "Suc i"]
    by (auto simp: exit_check split: option.splits prod.splits bool.splits)
  then show ?case
    unfolding poll_from.simps
    by (intro if_keeps_open andThen_keeps_open await_keeps_open leaves_keep_open) simp_all
qed

lemma upload_try_keeps_open: "Call BrowserClose \<notin> set (fst (upload_try u w p cap cb))"
  unfolding upload_try_def
  by (intro if_keeps_open case_option_keeps_open andThen_keeps_open await_keeps_open
        leaves_keep_open setupContext_keeps_open dismissModals_keeps_open
        findPostButton_keeps_open)
     (simp_all add: waitForUploadComplete_def poll_from_keeps_open)

text \<open>
  Once the context exists, the browser is closed exactly once, as the last event of the
  upload, however the upload ends: nothing inside the \<^verbatim>\<open>try\<close> block closes it, and the
  \<^verbatim>\<open>finally\<close> block does.
\<close>

lemma upload_closes_once:
  assumes "validateVideo w vid = Inr p"
    and "throws w (ChromiumLaunch (headless u)) = None"
    and "throws w (BrowserNewContext 1280 1024) = None"
  shows "count_list (fst (upload u w vid cap opts)) (Call BrowserClose) = 1
    \<and> last (fst (upload u w vid cap opts)) = Call BrowserClose"
proof -
  obtain es r where t: "upload_try u w p cap (onProgress opts) = (es, r)"
    by (cases "upload_try u w p cap (onProgress opts)")
  have "Call BrowserClose \<notin> set es"
    using upload_try_keeps_open [of u w p cap "onProgress opts"] by (simp add: t)
  then have c: "count_list es (Call BrowserClose) = 0"
    by (simp add: count_list_0_iff)
  have catch: "fst (upload_catch e) = []" for e
    by (cases e) (simp_all add: upload_catch_def throw_def)
  have "fst (try_catch (upload_try u w p cap (onProgress opts)) upload_catch) = es"
  proof (cases r)
    case (Inl e)
    then show ?thesis
      using catch [of e] by (cases "upload_catch e") (simp add: try_catch_def t)
  next
    case (Inr v)
    then show ?thesis by (simp add: try_catch_def t)
  qed
  then obtain r' where tc: "try_catch (upload_try u w p cap (onProgress opts)) upload_catch = (es, r')"
    by (cases "try_catch (upload_try u w p cap (onProgress opts)) upload_catch") simp
  show ?thesis
    using assms c
    by (simp add: upload_def tc await_def andThen_Inr report_def debug_log_def emit_def ret_def
          try_finally_def split: option.splits)
qed

subsection \<open>The visibility option\<close>

lemma upload_ignores_visibility:
  "upload u w v d \<lparr>visibility = vis1, onProgress = cb\<rparr>
     = upload u w v d \<lparr>visibility = vis2, onProgress = cb\<rparr>"
  by (simp add: upload_def cong: sum.case_cong)

lemma uploadMany_from_ignores_visibility:
  "map video vs1 = map video vs2 \<Longrightarrow> map description vs1 = map description vs2 \<Longrightarrow>
   uploadMany_from u ws cb i vs1 = uploadMany_from u ws cb i vs2"
proof (induction vs1 arbitrary: vs2 i)
  case Nil
  then show ?case by simp
next
  case (Cons a vs1)
  then obtain b vs2' where vs2: "vs2 = b # vs2'" by (cases vs2) auto
  with Cons.prems have ab: "video a = video b" "description a = description b"
    and rest: "map video vs1 = map video vs2'" "map description vs1 = map description vs2'"
    by auto
  have "uploadMany_from u ws cb (Suc i) vs1 = uploadMany_from u ws cb (Suc i) vs2'"
    using Cons.IH [OF rest] .
  moreover have "upload u (ws i) (video a) (description a) \<lparr>visibility = vi_visibility a, onProgress = False\<rparr>
     = upload u (ws i) (video b) (description b) \<lparr>visibility = vi_visibility b, onProgress = False\<rparr>"
    using ab upload_ignores_visibility [of u "ws i" "video b" "description b" "vi_visibility a" False "vi_visibility b"]
    by simp
  ultimately show ?case by (simp add: vs2)
qed

text \<open>
  C10. Two calls of \<open>upload\<close> that differ only in the visibility option (any of the three
  values, or absent) perform the same events and end the same way; likewise two calls of
  \<open>uploadMany\<close> whose requests agree in video and description and differ only in
  visibility. No function of the uploader reads the field.
\<close>

theorem visibility_is_never_read:
  "upload u w v d \<lparr>visibility = vis1, onProgress = cb\<rparr>
     = upload u w v d \<lparr>visibility = vis2, onProgress = cb\<rparr>
   \<and> (map video vs1 = map video vs2 \<and> map description vs1 = map description vs2 \<longrightarrow>
        uploadMany u ws vs1 done_cb = uploadMany u ws vs2 done_cb)"
  using upload_ignores_visibility [of u w v d vis1 cb vis2]
    uploadMany_from_ignores_visibility [of vs1 vs2 u ws done_cb 0]
  by (simp add: uploadMany_def)

text \<open>The same uploads with other visibilities.\<close>

theorem visibility_is_never_read_witness:
  "upload env_uploader studio_world ''clip.mp4'' ''hello'' \<lparr>visibility = Some Private, onProgress = True\<rparr>
     = upload env_uploader studio_world ''clip.mp4'' ''hello'' \<lparr>visibility = None, onProgress = True\<rparr>
   \<and> uploadMany env_uploader (\<lambda>i. studio_world) example_batch (Some quiet_callback)
     = uploadMany env_uploader (\<lambda>i. studio_world)
         [\<lparr>video = ''missing.mp4'', description = ''first'', vi_visibility = Some Everyone\<rparr>,
          \<lparr>video = ''clip.mp4'', description = ''second'', vi_visibility = Some Private\<rparr>]
         (Some quiet_callback)"
  using visibility_is_never_read [of env_uploader studio_world "''clip.mp4''" "''hello''"
      "Some Private" True None example_batch
      "[\<lparr>video = ''missing.mp4'', description = ''first'', vi_visibility = Some Everyone\<rparr>,
        \<lparr>video = ''clip.mp4'', description = ''second'', vi_visibility = Some Private\<rparr>]"
      "\<lambda>i. studio_world" "Some quiet_callback"]
  by (simp add: example_batch_def)

subsection \<open>Batches\<close>

lemma callback_throws_thrown:
  "callback_throws cb u ws videos i = thrown cb i (outcome u ws videos i)"
  by (simp add: callback_throws_def thrown_def)

lemma complete_run:
  "complete cb i r =
     (if cb = None then [] else [VideoComplete i r],
      case thrown cb i r of None \<Rightarrow> Inr () | Some s \<Rightarrow> Inl (PlatformError s))"
  by (simp add: complete_def thrown_def ret_def split: option.splits)

lemma thrown_None: "thrown None i r = None"
  by (simp add: thrown_def)

lemma attempt_head:
  "attempt u (\<lambda>j. ws (k + j)) (a # vs) 0
     = upload u (ws k) (video a) (description a) \<lparr>visibility = vi_visibility a, onProgress = False\<rparr>"
  by (simp add: attempt_def)

lemma attempt_tail:
  "attempt u (\<lambda>j. ws (k + j)) (a # vs) (Suc i) = attempt u (\<lambda>j. ws (Suc k + j)) vs i"
  by (simp add: attempt_def)

text \<open>One round of the loop, by what the callback does with the result of the request.\<close>

lemma uploadMany_from_step:
  "uploadMany_from u ws cb k (a # vs) =
     (case thrown cb k (result_of (snd (attempt u (\<lambda>j. ws (k + j)) (a # vs) 0))) of
        Some s \<Rightarrow>
          (fst (attempt u (\<lambda>j. ws (k + j)) (a # vs) 0)
             @ [VideoComplete k (result_of (snd (attempt u (\<lambda>j. ws (k + j)) (a # vs) 0)))],
           Inl (PlatformError s))
      | None \<Rightarrow>
          (fst (attempt u (\<lambda>j. ws (k + j)) (a # vs) 0)
             @ (if cb = None then []
                else [VideoComplete k (result_of (snd (attempt u (\<lambda>j. ws (k + j)) (a # vs) 0)))])
             @ fst (uploadMany_from u ws cb (Suc k) vs),
           case snd (uploadMany_from u ws cb (Suc k) vs) of
             Inl e \<Rightarrow> Inl e
           | Inr results \<Rightarrow>
               Inr (result_of (snd (attempt u (\<lambda>j. ws (k + j)) (a # vs) 0)) # results)))"
proof -
  obtain es r where up: "upload u (ws k) (video a) (description a)
      \<lparr>visibility = vi_visibility a, onProgress = False\<rparr> = (es, r)"
    by (cases "upload u (ws k) (video a) (description a)
      \<lparr>visibility = vi_visibility a, onProgress = False\<rparr>")
  obtain es' r' where rest: "uploadMany_from u ws cb (Suc k) vs = (es', r')"
    by (cases "uploadMany_from u ws cb (Suc k) vs")
  show ?thesis
  proof (cases "thrown cb k (result_of r)")
    case None
    then show ?thesis
      using rest by (cases r') (simp_all add: up attempt_head complete_run)
  next
    case (Some s)
    then obtain f where "cb = Some f" by (cases cb) (simp_all add: thrown_def)
    with Some show ?thesis
      by (simp add: up attempt_head complete_run)
  qed
qed

lemma uploadMany_from_all:
  "\<forall>i < length vs. thrown cb (k + i) (result_of (snd (attempt u (\<lambda>j. ws (k + j)) vs i))) = None \<Longrightarrow>
   uploadMany_from u ws cb k vs =
     (concat (map (\<lambda>i. fst (attempt u (\<lambda>j. ws (k + j)) vs i)
                @ (if cb = None then []
                   else [VideoComplete (k + i) (result_of (snd (attempt u (\<lambda>j. ws (k + j)) vs i)))]))
          [0 ..< length vs]),
      Inr (map (\<lambda>i. result_of (snd (attempt u (\<lambda>j. ws (k + j)) vs i))) [0 ..< length vs]))"
proof (induction vs arbitrary: k)
  case Nil
  then show ?case by (simp add: ret_def)
next
  case (Cons a vs)
  have head: "thrown cb k (result_of (snd (attempt u (\<lambda>j. ws (k + j)) (a # vs) 0))) = None"
    using Cons.prems [rule_format, of 0] by simp
  have "\<forall>i < length vs. thrown cb (Suc k + i) (result_of (snd (attempt u (\<lambda>j. ws (Suc k + j)) vs i))) = None"
  proof (intro allI impI)
    fix i assume "i < length vs"
    then have "Suc i < length (a # vs)" by simp
    with Cons.prems
    have "thrown cb (k + Suc i) (result_of (snd (attempt u (\<lambda>j. ws (k + j)) (a # vs) (Suc i)))) = None"
      by blast
    then show "thrown cb (Suc k + i) (result_of (snd (attempt u (\<lambda>j. ws (Suc k + j)) vs i))) = None"
      by (simp add: attempt_tail)
  qed
  from Cons.IH [OF this] show ?case
    by (simp add: uploadMany_from_step head map_upt_Suc attempt_tail
          del: uploadMany_from.simps(2) upt_Suc cong: if_cong)
qed

lemma uploadMany_from_abort:
  "m < length vs \<Longrightarrow>
   \<forall>i < m. thrown cb (k + i) (result_of (snd (attempt u (\<lambda>j. ws (k + j)) vs i))) = None \<Longrightarrow>
   thrown cb (k + m) (result_of (snd (attempt u (\<lambda>j. ws (k + j)) vs m))) = Some s \<Longrightarrow>
   uploadMany_from u ws cb k vs =
     (concat (map (\<lambda>i. fst (attempt u (\<lambda>j. ws (k + j)) vs i)
                @ (if cb = None then []
                   else [VideoComplete (k + i) (result_of (snd (attempt u (\<lambda>j. ws (k + j)) vs i)))]))
          [0 ..< Suc m]),
      Inl (PlatformError s))"
proof (induction vs arbitrary: k m)
  case Nil
  then show ?case by simp
next
  case (Cons a vs)
  obtain f where cb: "cb = Some f" using Cons.prems(3) by (cases cb) (simp_all add: thrown_def)
  show ?case
  proof (cases m)
    case 0
    with Cons.prems(3) show ?thesis
      by (simp add: uploadMany_from_step cb del: uploadMany_from.simps(2))
  next
    case (Suc m')
    have head: "thrown cb k (result_of (snd (attempt u (\<lambda>j. ws (k + j)) (a # vs) 0))) = None"
      using Cons.prems(2) [rule_format, of 0] Suc by simp
    have lt: "m' < length vs" using Cons.prems(1) Suc by simp
    have before: "\<forall>i < m'. thrown cb (Suc k + i) (result_of (snd (attempt u (\<lambda>j. ws (Suc k + j)) vs i))) = None"
    proof (intro allI impI)
      fix i assume "i < m'"
      then have "Suc i < m" using Suc by simp
      with Cons.prems(2)
      have "thrown cb (k + Suc i) (result_of (snd (attempt u (\<lambda>j. ws (k + j)) (a # vs) (Suc i)))) = None"
        by blast
      then show "thrown cb (Suc k + i) (result_of (snd (attempt u (\<lambda>j. ws (Suc k + j)) vs i))) = None"
        by (simp add: attempt_tail)
    qed
    have at: "thrown cb (Suc k + m') (result_of (snd (attempt u (\<lambda>j. ws (Suc k + j)) vs m'))) = Some s"
      using Cons.prems(3) Suc by (simp add: attempt_tail)
    from Cons.IH [OF lt before at] head show ?thesis
      by (simp add: uploadMany_from_step Suc map_upt_Suc [of _ "Suc m'"] attempt_tail cb
            del: uploadMany_from.simps(2) upt_Suc cong: if_cong)
  qed
qed

lemma outcome_fun: "outcome u ws videos = (\<lambda>i. result_of (snd (attempt u ws videos i)))"
  by (rule ext) (simp add: outcome_def)

lemma uploadMany_all:
  assumes "\<forall>i < length videos. callback_throws cb u ws videos i = None"
  shows "uploadMany u ws videos cb
     = (batch_events u ws videos cb (length videos),
        Inr (map (outcome u ws videos) [0 ..< length videos]))"
  using uploadMany_from_all [where vs = videos and cb = cb and k = 0 and u = u and ws = ws] assms
  by (simp add: uploadMany_def batch_events_def outcome_fun callback_throws_thrown cong: if_cong)

lemma uploadMany_abort:
  assumes "m < length videos" and "\<forall>i < m. callback_throws cb u ws videos i = None"
    and "callback_throws cb u ws videos m = Some s"
  shows "uploadMany u ws videos cb = (batch_events u ws videos cb (Suc m), Inl (PlatformError s))"
  using uploadMany_from_abort [where m = m and vs = videos and cb = cb and k = 0 and u = u and ws = ws and s = s] assms
  by (simp add: uploadMany_def batch_events_def outcome_fun callback_throws_thrown
        del: upt_Suc cong: if_cong)

lemma uploadMany_returned:
  assumes "snd (uploadMany u ws videos cb) = Inr rs"
  shows "rs = map (outcome u ws videos) [0 ..< length videos]"
proof (cases "\<forall>i < length videos. callback_throws cb u ws videos i = None")
  case True
  from uploadMany_all [OF True] assms show ?thesis by simp
next
  case False
  then have "\<exists>i. i < length videos \<and> callback_throws cb u ws videos i \<noteq> None" by blast
  then obtain m where m: "m < length videos \<and> callback_throws cb u ws videos m \<noteq> None"
    and least: "\<forall>i < m. \<not> (i < length videos \<and> callback_throws cb u ws videos i \<noteq> None)"
    using exists_least_iff [of "\<lambda>i. i < length videos \<and> callback_throws cb u ws videos i \<noteq> None"]
    by blast
  from m obtain s where s: "callback_throws cb u ws videos m = Some s" by blast
  have "\<forall>i < m. callback_throws cb u ws videos i = None"
    using least m by auto
  from uploadMany_abort [OF _ this s] m assms show ?thesis by simp
qed

text \<open>
  C8, as the code has it. \<open>uploadMany\<close> runs the uploads one after the other in request
  order: the events of the batch are the events of the upload of request 0, then the call
  of the completion callback with its result (when one is supplied), then the events of
  the upload of request 1, and so on. An upload that throws gives the result
  \<^verbatim>\<open>{success: false, status: 'failed', error: String(error)}\<close> and the batch goes on; an
  upload that returns gives what it returned. When every call of the callback returns
  (or no callback is supplied), \<open>uploadMany\<close> returns one result per request, in request
  order, and the callback has been called once per request. When the callback throws, for
  the first time at the request \<open>m\<close>, \<open>uploadMany\<close> throws what the callback threw, after the
  upload and the callback of the request \<open>m\<close>: it returns no results, and no later request is
  uploaded. Whenever \<open>uploadMany\<close> returns, it returns one result per request.
\<close>

theorem uploadMany_sequential:
  "((\<forall>i < length videos. callback_throws cb u ws videos i = None) \<longrightarrow>
      uploadMany u ws videos cb
        = (batch_events u ws videos cb (length videos),
           Inr (map (outcome u ws videos) [0 ..< length videos])))
   \<and> (\<forall>m s. m < length videos \<and> (\<forall>i < m. callback_throws cb u ws videos i = None)
           \<and> callback_throws cb u ws videos m = Some s \<longrightarrow>
         uploadMany u ws videos cb = (batch_events u ws videos cb (Suc m), Inl (PlatformError s)))
   \<and> (\<forall>rs. snd (uploadMany u ws videos cb) = Inr rs \<longrightarrow>
         length rs = length videos \<and> (\<forall>i < length videos. rs ! i = outcome u ws videos i))
   \<and> (\<forall>i e. snd (attempt u ws videos i) = Inl e \<longrightarrow>
         outcome u ws videos i
           = \<lparr>success = False, videoId = None, videoUrl = None, status = ''failed'',
              error = Some (String_error e)\<rparr>)
   \<and> (\<forall>i r. snd (attempt u ws videos i) = Inr r \<longrightarrow> outcome u ws videos i = r)"
proof -
  have a: "(\<forall>i < length videos. callback_throws cb u ws videos i = None) \<longrightarrow>
      uploadMany u ws videos cb
        = (batch_events u ws videos cb (length videos),
           Inr (map (outcome u ws videos) [0 ..< length videos]))"
    using uploadMany_all by blast
  have b: "\<forall>m s. m < length videos \<and> (\<forall>i < m. callback_throws cb u ws videos i = None)
           \<and> callback_throws cb u ws videos m = Some s \<longrightarrow>
         uploadMany u ws videos cb = (batch_events u ws videos cb (Suc m), Inl (PlatformError s))"
    using uploadMany_abort by blast
  have c: "\<forall>rs. snd (uploadMany u ws videos cb) = Inr rs \<longrightarrow>
         length rs = length videos \<and> (\<forall>i < length videos. rs ! i = outcome u ws videos i)"
    by (auto dest!: uploadMany_returned)
  have d: "\<forall>i e. snd (attempt u ws videos i) = Inl e \<longrightarrow>
         outcome u ws videos i
           = \<lparr>success = False, videoId = None, videoUrl = None, status = ''failed'',
              error = Some (String_error e)\<rparr>"
    by (simp add: outcome_def result_of_def failed_result_def)
  have e: "\<forall>i r. snd (attempt u ws videos i) = Inr r \<longrightarrow> outcome u ws videos i = r"
    by (simp add: outcome_def result_of_def)
  show ?thesis using a b c d e by blast
qed


lemma missing_video_upload:
  "upload u studio_world ''missing.mp4'' cap opts
     = ([], Inl (VideoNotFoundError ''/videos/missing.mp4''))"
  by (simp add: upload_def validateVideo_def studio_resolve studio_stat throw_def)

lemma studio_upload_succeeds:
  "snd (upload env_uploader studio_world ''clip.mp4'' cap \<lparr>visibility = vis, onProgress = False\<rparr>)
     = Inr \<lparr>success = True, videoId = None, videoUrl = None, status = ''uploaded'', error = None\<rparr>"
proof -
  have "snd (waitForUploadComplete studio_world (timeout env_uploader div 1000)
          (onProgress \<lparr>visibility = vis, onProgress = False\<rparr>)) = Inr True"
    by (simp add: env_uploader_fields studio_polling)
  from upload_until_polling [OF validate_clip env_uploader_fields(1) _ _ _ this, of 2 cap]
  show ?thesis
    by (simp add: studio_fields finds_third_button upload_page_is_no_login_page)
qed

lemma example_attempts:
  "attempt env_uploader (\<lambda>i. studio_world) example_batch 0
     = ([], Inl (VideoNotFoundError ''/videos/missing.mp4''))"
  "attempt env_uploader (\<lambda>i. studio_world) example_batch (Suc 0)
     = upload env_uploader studio_world ''clip.mp4'' ''second''
         \<lparr>visibility = Some Friends, onProgress = False\<rparr>"
  by (simp_all add: attempt_def example_batch_def missing_video_upload)

lemma example_outcomes:
  "outcome env_uploader (\<lambda>i. studio_world) example_batch 0
     = \<lparr>success = False, videoId = None, videoUrl = None, status = ''failed'',
        error = Some ''VideoNotFoundError: Video file not found: /videos/missing.mp4''\<rparr>"
  "outcome env_uploader (\<lambda>i. studio_world) example_batch (Suc 0)
     = \<lparr>success = True, videoId = None, videoUrl = None, status = ''uploaded'', error = None\<rparr>"
  by (simp_all add: outcome_def example_attempts studio_upload_succeeds result_of_def
        failed_result_def String_error_def error_name_def error_message_def)

text \<open>
  The batch of two in the studio: the first request fails validation and is recorded as
  failed, the second is uploaded; each call of the callback follows its own upload. With
  a callback that returns, the two results are returned. With a callback that throws at
  the request 1, both uploads have run and \<open>uploadMany\<close> throws.
\<close>

theorem uploadMany_sequential_witness:
  "uploadMany env_uploader (\<lambda>i. studio_world) example_batch (Some quiet_callback)
     = ([VideoComplete 0
           \<lparr>success = False, videoId = None, videoUrl = None, status = ''failed'',
            error = Some ''VideoNotFoundError: Video file not found: /videos/missing.mp4''\<rparr>]
        @ fst (upload env_uploader studio_world ''clip.mp4'' ''second''
                 \<lparr>visibility = Some Friends, onProgress = False\<rparr>)
        @ [VideoComplete 1
             \<lparr>success = True, videoId = None, videoUrl = None, status = ''uploaded'',
              error = None\<rparr>],
        Inr [\<lparr>success = False, videoId = None, videoUrl = None, status = ''failed'',
              error = Some ''VideoNotFoundError: Video file not found: /videos/missing.mp4''\<rparr>,
             \<lparr>success = True, videoId = None, videoUrl = None, status = ''uploaded'',
              error = None\<rparr>])
   \<and> uploadMany env_uploader (\<lambda>i. studio_world) example_batch (Some late_callback)
     = ([VideoComplete 0
           \<lparr>success = False, videoId = None, videoUrl = None, status = ''failed'',
            error = Some ''VideoNotFoundError: Video file not found: /videos/missing.mp4''\<rparr>]
        @ fst (upload env_uploader studio_world ''clip.mp4'' ''second''
                 \<lparr>visibility = Some Friends, onProgress = False\<rparr>)
        @ [VideoComplete 1
             \<lparr>success = True, videoId = None, videoUrl = None, status = ''uploaded'',
              error = None\<rparr>],
        Inl (PlatformError ''Error: no more''))"
proof -
  have n: "length example_batch = 2" "[0 ..< 2] = [0, Suc 0]"
    by (simp_all add: example_batch_def upt_conv_Cons)
  have q: "\<forall>i < length example_batch.
      callback_throws (Some quiet_callback) env_uploader (\<lambda>i. studio_world) example_batch i = None"
    by (simp add: callback_throws_def quiet_callback_def)
  have l: "Suc 0 < length example_batch"
    "\<forall>i < Suc 0. callback_throws (Some late_callback) env_uploader (\<lambda>i. studio_world) example_batch i = None"
    "callback_throws (Some late_callback) env_uploader (\<lambda>i. studio_world) example_batch (Suc 0)
       = Some ''Error: no more''"
    by (simp_all add: callback_throws_def late_callback_def n)
  have "uploadMany env_uploader (\<lambda>i. studio_world) example_batch (Some quiet_callback)
        = (batch_events env_uploader (\<lambda>i. studio_world) example_batch (Some quiet_callback)
             (length example_batch),
           Inr (map (outcome env_uploader (\<lambda>i. studio_world) example_batch)
                  [0 ..< length example_batch]))"
    using uploadMany_sequential [of example_batch "Some quiet_callback" env_uploader "\<lambda>i. studio_world"] q
    by blast
  moreover have "uploadMany env_uploader (\<lambda>i. studio_world) example_batch (Some late_callback)
        = (batch_events env_uploader (\<lambda>i. studio_world) example_batch (Some late_callback) (Suc (Suc 0)),
           Inl (PlatformError ''Error: no more''))"
    using uploadMany_sequential [of example_batch "Some late_callback" env_uploader "\<lambda>i. studio_world"] l
    by blast
  ultimately show ?thesis
    by (simp add: n batch_events_def example_outcomes example_attempts numeral_2_eq_2)
qed

text \<open>
  The specification has \<open>uploadMany\<close> return one outcome per request for every list, go on
  after a request that fails, and call the callback once per request. Here the first of
  two requests fails validation; the callback, called with its failure, throws; and
  \<open>uploadMany\<close> throws what the callback threw: no results are returned, the second
  request is never uploaded, and the callback is called once, not twice.
\<close>

theorem uploadMany_aborted_by_callback_counterexample:
  "uploadMany env_uploader (\<lambda>i. studio_world) example_batch (Some strict_callback)
     = ([VideoComplete 0
           \<lparr>success = False, videoId = None, videoUrl = None, status = ''failed'',
            error = Some ''VideoNotFoundError: Video file not found: /videos/missing.mp4''\<rparr>],
        Inl (PlatformError ''Error: upload failed''))
   \<and> length example_batch = 2"
  by (simp add: uploadMany_def example_batch_def missing_video_upload complete_def
        strict_callback_def result_of_def failed_result_def String_error_def error_name_def
        error_message_def)

end
